theory Spec2Isabelle
  imports Complex_Main "HOL-Library.Sublist"
begin

section \<open>JavaScript numbers\<close>

text \<open>
  Every number of the program is an IEEE-754 binary64 value. A finite value is kept as the
  rational it denotes; the two infinities and NaN are constructors of their own. The
  result of an arithmetic operation on finite values is the exact result rounded to the
  nearest binary64 value, ties to the even significand (\<open>round64\<close>), and an infinity
  when the rounded magnitude reaches \<open>2^1024\<close>, that is, when its binary exponent is 1024
  or more. The sign of zero is not kept: the model has one zero, which behaves as
  \<open>+0\<close>.
\<close>

datatype jsnum = Fin rat | PInf | NInf | NaN

text \<open>Powers of two by repeated squaring, so that large exponents evaluate quickly.\<close>

definition sq :: "rat \<Rightarrow> rat" where
  "sq x = x * x"

function pow2n :: "int \<Rightarrow> rat" where
  "pow2n k = (if k \<le> 0 then 1
              else if even k then sq (pow2n (k div 2))
              else 2 * pow2n (k - 1))"
  by pat_completeness auto
termination
  by (relation "measure nat") auto

definition pow2 :: "int \<Rightarrow> rat" where
  "pow2 k = (if 0 \<le> k then pow2n k else 1 / pow2n (- k))"

text \<open>The number of binary digits of a positive integer.\<close>

function bitlen :: "int \<Rightarrow> int" where
  "bitlen n = (if n \<le> 0 then 0 else 1 + bitlen (n div 2))"
  by pat_completeness auto
termination
  by (relation "measure nat") auto

text \<open>\<open>ilog2 x\<close> is the binary exponent of a positive \<open>x\<close>: \<open>2^e \<le> x < 2^(e+1)\<close>.\<close>

definition ilog2 :: "rat \<Rightarrow> int" where
  "ilog2 x = (case quotient_of x of (p, q) \<Rightarrow>
     (let e = bitlen p - bitlen q
      in if pow2 e \<le> x then e else e - 1))"

text \<open>Rounding to the nearest integer, a tie going to the even one.\<close>

definition rhe :: "rat \<Rightarrow> int" where
  "rhe x = (let f = \<lfloor>x\<rfloor>; d = x - of_int f
            in if d < 1 / 2 then f
               else if 1 / 2 < d then f + 1
               else if even f then f else f + 1)"

text \<open>
  A binary64 value has a 53-bit significand and a least exponent of \<open>-1074\<close> for the
  unit in the last place (the subnormal range).
\<close>

definition round64 :: "rat \<Rightarrow> rat" where
  "round64 x = (if x = 0 then 0
     else (let k = max (ilog2 \<bar>x\<bar> - 52) (- 1074)
           in of_int (rhe (x / pow2 k)) * pow2 k))"

definition num :: "rat \<Rightarrow> jsnum" where
  "num x = (let y = round64 x
            in if y = 0 then Fin 0
               else if 1024 \<le> ilog2 \<bar>y\<bar> then (if 0 < y then PInf else NInf)
               else Fin y)"

fun jsneg :: "jsnum \<Rightarrow> jsnum" where
  "jsneg (Fin a) = Fin (- a)"
| "jsneg PInf = NInf"
| "jsneg NInf = PInf"
| "jsneg NaN = NaN"

fun jsadd :: "jsnum \<Rightarrow> jsnum \<Rightarrow> jsnum" where
  "jsadd NaN _ = NaN"
| "jsadd _ NaN = NaN"
| "jsadd (Fin a) (Fin b) = num (a + b)"
| "jsadd PInf NInf = NaN"
| "jsadd NInf PInf = NaN"
| "jsadd PInf _ = PInf"
| "jsadd NInf _ = NInf"
| "jsadd (Fin a) PInf = PInf"
| "jsadd (Fin a) NInf = NInf"

definition jssub :: "jsnum \<Rightarrow> jsnum \<Rightarrow> jsnum" where
  "jssub a b = jsadd a (jsneg b)"

text \<open>The sign of a non-NaN value: \<open>True\<close> for negative. Zero counts as positive.\<close>

fun jsnegative :: "jsnum \<Rightarrow> bool" where
  "jsnegative (Fin a) = (a < 0)"
| "jsnegative NInf = True"
| "jsnegative _ = False"

definition jsinf :: "bool \<Rightarrow> jsnum" where
  "jsinf negative = (if negative then NInf else PInf)"

fun jsmul :: "jsnum \<Rightarrow> jsnum \<Rightarrow> jsnum" where
  "jsmul NaN _ = NaN"
| "jsmul _ NaN = NaN"
| "jsmul (Fin a) (Fin b) = num (a * b)"
| "jsmul (Fin a) b = (if a = 0 then NaN else jsinf (jsnegative (Fin a) \<noteq> jsnegative b))"
| "jsmul a (Fin b) = (if b = 0 then NaN else jsinf (jsnegative a \<noteq> jsnegative (Fin b)))"
| "jsmul a b = jsinf (jsnegative a \<noteq> jsnegative b)"

fun jsdiv :: "jsnum \<Rightarrow> jsnum \<Rightarrow> jsnum" where
  "jsdiv NaN _ = NaN"
| "jsdiv _ NaN = NaN"
| "jsdiv (Fin a) (Fin b) =
     (if b = 0 then (if a = 0 then NaN else jsinf (a < 0)) else num (a / b))"
| "jsdiv (Fin a) _ = Fin 0"
| "jsdiv a (Fin b) = jsinf (jsnegative a \<noteq> jsnegative (Fin b))"
| "jsdiv _ _ = NaN"

text \<open>The comparison \<open>a < b\<close> of the language: false as soon as one side is NaN.\<close>

fun jslt :: "jsnum \<Rightarrow> jsnum \<Rightarrow> bool" where
  "jslt NaN _ = False"
| "jslt _ NaN = False"
| "jslt (Fin a) (Fin b) = (a < b)"
| "jslt NInf NInf = False"
| "jslt NInf _ = True"
| "jslt _ NInf = False"
| "jslt PInf _ = False"
| "jslt _ PInf = True"

definition jsgt :: "jsnum \<Rightarrow> jsnum \<Rightarrow> bool" where
  "jsgt a b = jslt b a"

section \<open>Node: one backend connection\<close>

datatype NodeState = DISCONNECTED | CONNECTING | CONNECTED | RECONNECTING

text \<open>The \<open>readyState\<close> of the socket object held in \<open>ws\<close>.\<close>

datatype ReadyState = WS_CONNECTING | WS_OPEN | WS_CLOSING | WS_CLOSED

record MemoryStats =
  free :: jsnum
  used :: jsnum
  allocated :: jsnum
  reservable :: jsnum

record CpuStats =
  cores :: jsnum
  systemLoad :: jsnum
  lavalinkLoad :: jsnum

record FrameStats =
  sent :: jsnum
  nulled :: jsnum
  deficit :: jsnum

record NodeStats =
  players :: jsnum
  playingPlayers :: jsnum
  uptime :: jsnum
  memory :: MemoryStats
  cpu :: CpuStats
  frameStats :: "FrameStats option"


text \<open>
  The options a node is created from; an optional field that was left out is \<open>None\<close>.
  The reconnect settings are finite numbers.
\<close>

record NodeOptions =
  opt_name :: string
  opt_host :: string
  opt_port :: int
  opt_password :: string
  opt_secure :: "bool option"
  opt_resumeKey :: "string option"
  opt_resumeTimeout :: "int option"
  opt_maxReconnectAttempts :: "int option"
  opt_reconnectDelay :: "rat option"
  opt_region :: "string option"

text \<open>The options of a node after the constructor has filled in the defaults.\<close>

record RequiredNodeOptions =
  name :: string
  host :: string
  port :: int
  password :: string
  secure :: bool
  resumeKey :: string
  resumeTimeout :: int
  maxReconnectAttempts :: int
  reconnectDelay :: rat
  region :: "string option"

text \<open>
  Modelled from the spec: the class \<open>ExponentialBackoff\<close> of \<open>utils/backoff\<close>, which the
  node imports and whose source file is missing. The spec gives its delay as ``base
  delay \<times> 2^attempt, capped at a maximum delay, \<plusminus>20% random jitter'', resets the
  backoff counter on a successful connect, and abandons reconnection once the attempts
  exceed the configured maximum; \<open>hasReachedMaxAttempts\<close> is taken by its name, as true
  once the attempts made are as many as the maximum. The random draw is the argument
  \<open>u\<close>, a number between \<open>-1\<close> and \<open>1\<close> that scales the jitter fraction.
\<close>

record ExponentialBackoff =
  baseDelay :: rat
  maxDelay :: rat
  maxAttempts :: int
  jitter :: rat
  attempt :: nat

definition backoff_delay :: "ExponentialBackoff \<Rightarrow> rat \<Rightarrow> rat" where
  "backoff_delay b u =
     (let exponentialDelay = min (baseDelay b * 2 ^ attempt b) (maxDelay b)
      in exponentialDelay + exponentialDelay * jitter b * u)"

definition backoff_next :: "ExponentialBackoff \<Rightarrow> rat \<Rightarrow> rat \<times> ExponentialBackoff" where
  "backoff_next b u = (backoff_delay b u, b\<lparr>attempt := attempt b + 1\<rparr>)"

definition backoff_reset :: "ExponentialBackoff \<Rightarrow> ExponentialBackoff" where
  "backoff_reset b = b\<lparr>attempt := 0\<rparr>"

definition hasReachedMaxAttempts :: "ExponentialBackoff \<Rightarrow> bool" where
  "hasReachedMaxAttempts b = (maxAttempts b \<le> int (attempt b))"

definition getAttempt :: "ExponentialBackoff \<Rightarrow> nat" where
  "getAttempt b = attempt b"

text \<open>The socket object: its ready state and the code of a close that was asked for.\<close>

record WebSocket =
  readyState :: ReadyState
  closeCode :: "int option"

text \<open>The callbacks a node invokes on its owner, in the order of the calls.\<close>

datatype NodeEvent =
    OnConnect
  | OnDisconnect int string
  | OnError string
  | OnReconnecting nat
  | OnPlayerUpdate string
  | OnStats
  | OnReady string bool
  | OnTrackStart string
  | OnTrackEnd string
  | OnTrackException string
  | OnTrackStuck string
  | OnWebSocketClosed string

text \<open>
  A timer is kept by its delay (\<open>reconnectTimeout\<close>) or its period
  (\<open>heartbeatInterval\<close>) in milliseconds; \<open>None\<close> is a cleared timer.
\<close>

record Node =
  options :: RequiredNodeOptions
  state :: NodeState
  stats :: "NodeStats option"
  sessionId :: "string option"
  ws :: "WebSocket option"
  backoff :: ExponentialBackoff
  reconnectTimeout :: "rat option"
  lastHeartbeat :: int
  heartbeatInterval :: "int option"
  emitted :: "NodeEvent list"

text \<open>The constructor: a disconnected node whose backoff is configured from the options.\<close>

definition orDefault :: "'a option \<Rightarrow> 'a \<Rightarrow> 'a" where
  "orDefault v d = (case v of None \<Rightarrow> d | Some x \<Rightarrow> x)"

definition new_Node :: "NodeOptions \<Rightarrow> Node" where
  "new_Node opts =
     (let options' =
            \<lparr> name = opt_name opts, host = opt_host opts, port = opt_port opts,
              password = opt_password opts,
              secure = orDefault (opt_secure opts) False,
              resumeKey = orDefault (opt_resumeKey opts) ''lavaflow'',
              resumeTimeout = orDefault (opt_resumeTimeout opts) 60,
              maxReconnectAttempts = orDefault (opt_maxReconnectAttempts opts) 3,
              reconnectDelay = orDefault (opt_reconnectDelay opts) 5000,
              region = opt_region opts \<rparr>
      in \<lparr> options = options', state = DISCONNECTED, stats = None, sessionId = None,
           ws = None,
           backoff = \<lparr> baseDelay = reconnectDelay options', maxDelay = 60000,
                       maxAttempts = maxReconnectAttempts options', jitter = 2 / 10,
                       attempt = 0 \<rparr>,
           reconnectTimeout = None, lastHeartbeat = 0, heartbeatInterval = None,
           emitted = [] \<rparr>)"

definition emit :: "NodeEvent \<Rightarrow> Node \<Rightarrow> Node" where
  "emit e n = n\<lparr>emitted := emitted n @ [e]\<rparr>"

subsection \<open>Penalty\<close>

definition isConnected :: "Node \<Rightarrow> bool" where
  "isConnected n =
     (state n = CONNECTED \<and> (case ws n of None \<Rightarrow> False | Some s \<Rightarrow> readyState s = WS_OPEN))"

definition getPenalty :: "Node \<Rightarrow> jsnum" where
  "getPenalty n =
     (if \<not> isConnected n then PInf
      else case stats n of
        None \<Rightarrow> PInf
      | Some s \<Rightarrow>
         (let penalty = Fin 0;
              penalty = jsadd penalty (players s);
              penalty = jsadd penalty (jsmul (playingPlayers s) (Fin 2));
              penalty =
                (if jsgt (cores (cpu s)) (Fin 0)
                 then jsadd penalty (jsmul (jsdiv (lavalinkLoad (cpu s)) (cores (cpu s))) (Fin 100))
                 else penalty);
              memoryUsageRatio = jsdiv (used (memory s)) (allocated (memory s));
              penalty =
                (if jsgt memoryUsageRatio (num (8 / 10))
                 then jsadd penalty (jsmul (jssub memoryUsageRatio (num (8 / 10))) (Fin 500))
                 else penalty);
              penalty =
                (case frameStats s of
                   None \<Rightarrow> penalty
                 | Some f \<Rightarrow> jsadd (jsadd penalty (jsmul (deficit f) (Fin 2))) (nulled f))
          in penalty))"

record PenaltyDetails =
  total :: jsnum
  d_players :: jsnum
  d_playingPlayers :: jsnum
  d_cpu :: jsnum
  d_memory :: jsnum
  d_frames :: jsnum

definition getPenaltyDetails :: "Node \<Rightarrow> PenaltyDetails" where
  "getPenaltyDetails n =
     (if \<not> isConnected n
      then \<lparr> total = PInf, d_players = Fin 0, d_playingPlayers = Fin 0, d_cpu = Fin 0,
             d_memory = Fin 0, d_frames = Fin 0 \<rparr>
      else case stats n of
        None \<Rightarrow> \<lparr> total = PInf, d_players = Fin 0, d_playingPlayers = Fin 0, d_cpu = Fin 0,
                  d_memory = Fin 0, d_frames = Fin 0 \<rparr>
      | Some s \<Rightarrow>
         (let playersPenalty = players s;
              playingPlayersPenalty = jsmul (playingPlayers s) (Fin 2);
              cpuPenalty =
                (if jsgt (cores (cpu s)) (Fin 0)
                 then jsmul (jsdiv (lavalinkLoad (cpu s)) (cores (cpu s))) (Fin 100)
                 else Fin 0);
              memoryUsageRatio = jsdiv (used (memory s)) (allocated (memory s));
              memoryPenalty =
                (if jsgt memoryUsageRatio (num (8 / 10))
                 then jsmul (jssub memoryUsageRatio (num (8 / 10))) (Fin 500)
                 else Fin 0);
              framesPenalty =
                (case frameStats s of
                   None \<Rightarrow> Fin 0
                 | Some f \<Rightarrow> jsadd (jsmul (deficit f) (Fin 2)) (nulled f));
              total' =
                jsadd (jsadd (jsadd (jsadd playersPenalty playingPlayersPenalty) cpuPenalty)
                  memoryPenalty) framesPenalty
          in \<lparr> total = total', d_players = playersPenalty,
               d_playingPlayers = playingPlayersPenalty, d_cpu = cpuPenalty,
               d_memory = memoryPenalty, d_frames = framesPenalty \<rparr>))"


subsection \<open>Socket events, reconnection and heartbeat\<close>

text \<open>
  Time is the millisecond clock \<open>Date.now()\<close>, passed to each handler as \<open>now\<close>. The
  random draw of a backoff delay is passed as \<open>u\<close>.
\<close>

definition clearReconnectTimeout :: "Node \<Rightarrow> Node" where
  "clearReconnectTimeout n = n\<lparr>reconnectTimeout := None\<rparr>"

definition clearHeartbeatInterval :: "Node \<Rightarrow> Node" where
  "clearHeartbeatInterval n = n\<lparr>heartbeatInterval := None\<rparr>"

definition startHeartbeat :: "Node \<Rightarrow> Node" where
  "startHeartbeat n = n\<lparr>heartbeatInterval := Some 15000\<rparr>"

text \<open>
  \<open>ws.close(code, reason)\<close> on the socket object: an open socket starts its closing
  handshake with that code; a socket that is closing or closed stays as it is.
\<close>

definition ws_close :: "int \<Rightarrow> WebSocket \<Rightarrow> WebSocket" where
  "ws_close code s =
     (if readyState s = WS_CLOSING \<or> readyState s = WS_CLOSED then s
      else s\<lparr>readyState := WS_CLOSING, closeCode := Some code\<rparr>)"

text \<open>One run of the interval callback installed by \<open>startHeartbeat\<close>.\<close>

definition heartbeat_tick :: "int \<Rightarrow> Node \<Rightarrow> Node" where
  "heartbeat_tick now n =
     (case heartbeatInterval n of
        None \<Rightarrow> n
      | Some _ \<Rightarrow>
         (let timeSinceLastHeartbeat = now - lastHeartbeat n
          in if timeSinceLastHeartbeat > 60000
             then (emit (OnError ''Heartbeat timeout'') n)
                    \<lparr>ws := map_option (ws_close 4000) (ws n)\<rparr>
             else n))"

definition onOpen :: "int \<Rightarrow> Node \<Rightarrow> Node" where
  "onOpen now n =
     emit OnConnect
       (startHeartbeat
         (n\<lparr>state := CONNECTED, backoff := backoff_reset (backoff n), lastHeartbeat := now\<rparr>))"

definition scheduleReconnect :: "rat \<Rightarrow> Node \<Rightarrow> Node" where
  "scheduleReconnect u n =
     (if hasReachedMaxAttempts (backoff n)
      then emit (OnError ''Max reconnection attempts reached'') n
      else (case backoff_next (backoff n) u of
              (delay, b') \<Rightarrow>
                (emit (OnReconnecting (getAttempt b'))
                   (n\<lparr>state := RECONNECTING, backoff := b'\<rparr>))
                  \<lparr>reconnectTimeout := Some delay\<rparr>))"

definition onClose :: "int \<Rightarrow> string \<Rightarrow> rat \<Rightarrow> Node \<Rightarrow> Node" where
  "onClose code reason u n =
     (let n1 = emit (OnDisconnect code reason)
                 (clearHeartbeatInterval (n\<lparr>state := DISCONNECTED\<rparr>))
      in if code \<noteq> 1000 \<and> maxReconnectAttempts (options n1) \<noteq> 0
         then scheduleReconnect u n1
         else n1)"

definition handlePlayerUpdateEvent :: "int \<Rightarrow> string \<Rightarrow> Node \<Rightarrow> Node" where
  "handlePlayerUpdateEvent now guildId n =
     emit (OnPlayerUpdate guildId) (n\<lparr>lastHeartbeat := now\<rparr>)"

definition handleStatsEvent :: "NodeStats \<Rightarrow> Node \<Rightarrow> Node" where
  "handleStatsEvent ev n = emit OnStats (n\<lparr>stats := Some ev\<rparr>)"

text \<open>
  The messages of the backend, as far as the node looks at them: the \<open>op\<close> of the
  payload, and for an \<open>event\<close> its \<open>type\<close>; a payload with another \<open>op\<close> or \<open>type\<close> falls
  through the \<open>switch\<close>. A message is a payload, or data for which \<open>JSON.parse\<close> throws
  an error, kept by its message.
\<close>

datatype TrackEventType =
    TrackStartEvent
  | TrackEndEvent
  | TrackExceptionEvent
  | TrackStuckEvent
  | WebSocketClosedEvent
  | OtherType

datatype LavalinkEvent =
    ReadyEvent string bool
  | PlayerUpdateEvent string
  | StatsEvent NodeStats
  | TrackEvent TrackEventType string
  | OtherOp

datatype Message = Payload LavalinkEvent | Malformed string

text \<open>
  \<open>handleReadyEvent\<close> keeps the session id; for a session that was not resumed it asks
  the backend to configure resuming. \<open>updateSession\<close> is the outcome of that request:
  \<open>None\<close> when it succeeds, the message of its error when it is rejected, which is
  passed to \<open>onError\<close>.
\<close>

definition handleReadyEvent :: "string option \<Rightarrow> string \<Rightarrow> bool \<Rightarrow> Node \<Rightarrow> Node" where
  "handleReadyEvent updateSession sid resumed n =
     (let n1 = emit (OnReady sid resumed) (n\<lparr>sessionId := Some sid\<rparr>)
      in if \<not> resumed
         then (case updateSession of None \<Rightarrow> n1 | Some message \<Rightarrow> emit (OnError message) n1)
         else n1)"

definition handleTrackEvent :: "TrackEventType \<Rightarrow> string \<Rightarrow> Node \<Rightarrow> Node" where
  "handleTrackEvent ty guildId n =
     (case ty of
        TrackStartEvent \<Rightarrow> emit (OnTrackStart guildId) n
      | TrackEndEvent \<Rightarrow> emit (OnTrackEnd guildId) n
      | TrackExceptionEvent \<Rightarrow> emit (OnTrackException guildId) n
      | TrackStuckEvent \<Rightarrow> emit (OnTrackStuck guildId) n
      | WebSocketClosedEvent \<Rightarrow> emit (OnWebSocketClosed guildId) n
      | OtherType \<Rightarrow> n)"

definition handleLavalinkEvent :: "int \<Rightarrow> string option \<Rightarrow> LavalinkEvent \<Rightarrow> Node \<Rightarrow> Node" where
  "handleLavalinkEvent now updateSession event n =
     (case event of
        ReadyEvent sid resumed \<Rightarrow> handleReadyEvent updateSession sid resumed n
      | PlayerUpdateEvent guildId \<Rightarrow> handlePlayerUpdateEvent now guildId n
      | StatsEvent ev \<Rightarrow> handleStatsEvent ev n
      | TrackEvent ty guildId \<Rightarrow> handleTrackEvent ty guildId n
      | OtherOp \<Rightarrow> n)"

definition onMessage :: "int \<Rightarrow> string option \<Rightarrow> Message \<Rightarrow> Node \<Rightarrow> Node" where
  "onMessage now updateSession data n =
     (case data of
        Payload event \<Rightarrow> handleLavalinkEvent now updateSession event n
      | Malformed message \<Rightarrow> emit (OnError message) n)"

definition disconnect :: "Node \<Rightarrow> Node" where
  "disconnect n =
     (clearHeartbeatInterval (clearReconnectTimeout (n\<lparr>state := DISCONNECTED\<rparr>)))
       \<lparr>ws := None\<rparr>"

text \<open>
  What the network does to a socket that \<open>connect\<close> has just created, within the ten
  seconds \<open>connect\<close> waits: it opens, it closes with a code, or nothing happens.
\<close>

datatype SocketOutcome = SocketOpened | SocketClosed int | SocketSilent

datatype error =
    NodeExists string
  | NotInitialized
  | CannotConnect NodeState
  | ConnectionTimeout
  | ConnectionFailed
  | NoConnectedNodes
  | NoTrack
  | RequestFailed
  | TypeError

text \<open>
  \<open>connect\<close>: refused unless the node is disconnected or reconnecting; otherwise the node
  is \<open>CONNECTING\<close> with a fresh socket, and \<open>waitForConnection\<close> resolves once the state
  is \<open>CONNECTED\<close>, rejects with ``Connection failed'' when it finds the state
  \<open>DISCONNECTED\<close>, and rejects with ``Connection timeout'' otherwise.
\<close>

definition connect :: "Node \<Rightarrow> string \<Rightarrow> SocketOutcome \<Rightarrow> int \<Rightarrow> rat \<Rightarrow> (error + unit) \<times> Node" where
  "connect n clientId outcome now u =
     (if state n \<noteq> DISCONNECTED \<and> state n \<noteq> RECONNECTING
      then (Inl (CannotConnect (state n)), n)
      else (let n1 = n\<lparr>state := CONNECTING,
                       ws := Some \<lparr>readyState = WS_CONNECTING, closeCode = None\<rparr>\<rparr>
            in case outcome of
                 SocketOpened \<Rightarrow>
                   (Inr (), onOpen now (n1\<lparr>ws := Some \<lparr>readyState = WS_OPEN, closeCode = None\<rparr>\<rparr>))
               | SocketClosed code \<Rightarrow>
                   (let n2 = onClose code [] u
                               (n1\<lparr>ws := Some \<lparr>readyState = WS_CLOSED, closeCode = None\<rparr>\<rparr>)
                    in (if state n2 = DISCONNECTED then Inl ConnectionFailed
                        else Inl ConnectionTimeout, n2))
               | SocketSilent \<Rightarrow> (Inl ConnectionTimeout, n1)))"


section \<open>NodeManager: the registry of nodes\<close>

text \<open>
  The registry is a \<open>Map\<close> from names to nodes, which iterates in insertion order: a
  list of pairs with one pair for each key. \<open>map_set\<close> replaces the value of a key in
  place and appends a new key at the end.
\<close>

definition map_has :: "'k \<Rightarrow> ('k \<times> 'v) list \<Rightarrow> bool" where
  "map_has k m = (map_of m k \<noteq> None)"

fun map_set :: "'k \<Rightarrow> 'v \<Rightarrow> ('k \<times> 'v) list \<Rightarrow> ('k \<times> 'v) list" where
  "map_set k v [] = [(k, v)]"
| "map_set k v ((k', v') # m) =
     (if k' = k then (k, v) # m else (k', v') # map_set k v m)"

definition map_delete :: "'k \<Rightarrow> ('k \<times> 'v) list \<Rightarrow> ('k \<times> 'v) list" where
  "map_delete k m = filter (\<lambda>kv. fst kv \<noteq> k) m"

definition map_values :: "('k \<times> 'v) list \<Rightarrow> 'v list" where
  "map_values m = map snd m"

record NodeManager =
  nodes :: "(string \<times> Node) list"
  clientId :: "string option"
  customPenaltyCalculator :: "(Node \<Rightarrow> jsnum) option"

text \<open>A string value that may be absent counts as given when it is present and not empty.\<close>

definition truthy :: "string option \<Rightarrow> bool" where
  "truthy v = (case v of None \<Rightarrow> False | Some s \<Rightarrow> s \<noteq> [])"

text \<open>
  \<open>addNode\<close>: the node is registered before the connection attempt, and the entry is
  deleted again when the attempt fails. The registry holds the node object itself, so on
  success it shows the node as \<open>connect\<close> left it.
\<close>

definition addNode ::
  "NodeManager \<Rightarrow> NodeOptions \<Rightarrow> SocketOutcome \<Rightarrow> int \<Rightarrow> rat \<Rightarrow> (error + Node) \<times> NodeManager" where
  "addNode m opts outcome now u =
     (if map_has (opt_name opts) (nodes m) then (Inl (NodeExists (opt_name opts)), m)
      else if \<not> truthy (clientId m) then (Inl NotInitialized, m)
      else (let node = new_Node opts;
                m1 = m\<lparr>nodes := map_set (opt_name opts) node (nodes m)\<rparr>
            in case connect node (the (clientId m)) outcome now u of
                 (Inr _, node') \<Rightarrow>
                   (Inr node', m1\<lparr>nodes := map_set (opt_name opts) node' (nodes m1)\<rparr>)
               | (Inl e, node') \<Rightarrow>
                   (Inl e, m1\<lparr>nodes := map_delete (opt_name opts) (nodes m1)\<rparr>)))"

definition getNodes :: "NodeManager \<Rightarrow> Node list" where
  "getNodes m = map_values (nodes m)"

definition getConnectedNodes :: "NodeManager \<Rightarrow> Node list" where
  "getConnectedNodes m = filter isConnected (getNodes m)"

subsection \<open>Selection\<close>

text \<open>
  The scan of \<open>selectBestFromNodes\<close>: \<open>selectLoop\<close> is the \<open>for\<close> loop over the nodes
  after the first, carrying \<open>bestNode\<close> and \<open>lowestPenalty\<close>. The method is private and
  is only called with a list that is not empty; on an empty list the read of the first
  node's penalty fails.
\<close>

fun selectLoop :: "(Node \<Rightarrow> jsnum) \<Rightarrow> Node \<Rightarrow> jsnum \<Rightarrow> Node list \<Rightarrow> Node" where
  "selectLoop penaltyFn bestNode lowestPenalty [] = bestNode"
| "selectLoop penaltyFn bestNode lowestPenalty (node # rest) =
     (let penalty = penaltyFn node
      in if jslt penalty lowestPenalty
         then selectLoop penaltyFn node penalty rest
         else selectLoop penaltyFn bestNode lowestPenalty rest)"

definition penaltyFnOf :: "NodeManager \<Rightarrow> Node \<Rightarrow> jsnum" where
  "penaltyFnOf m = (case customPenaltyCalculator m of None \<Rightarrow> getPenalty | Some f \<Rightarrow> f)"

definition selectBestFromNodes :: "NodeManager \<Rightarrow> Node list \<Rightarrow> error + Node" where
  "selectBestFromNodes m ns =
     (let penaltyFn = penaltyFnOf m
      in case ns of
           [] \<Rightarrow> Inl TypeError
         | bestNode # rest \<Rightarrow> Inr (selectLoop penaltyFn bestNode (penaltyFn bestNode) rest))"

text \<open>
  \<open>matchesRegion\<close>: both names are put in lower case and lose their \<open>-\<close> and \<open>_\<close>; then
  one has to contain the other. Strings are lists of 8-bit characters, and only the
  letters \<open>A\<close> to \<open>Z\<close> have a lower case.
\<close>

definition lowerChar :: "char \<Rightarrow> char" where
  "lowerChar c =
     (let k = (of_char c :: nat) in if 65 \<le> k \<and> k \<le> 90 then char_of (k + 32) else c)"

definition normalize :: "string \<Rightarrow> string" where
  "normalize r = filter (\<lambda>c. c \<noteq> CHR ''-'' \<and> c \<noteq> CHR ''_'') (map lowerChar r)"

fun includes_str :: "string \<Rightarrow> string \<Rightarrow> bool" where
  "includes_str [] sub = (sub = [])"
| "includes_str (c # cs) sub = (prefix sub (c # cs) \<or> includes_str cs sub)"

definition matchesRegion :: "string \<Rightarrow> string \<Rightarrow> bool" where
  "matchesRegion nodeRegion voiceRegion =
     (includes_str (normalize nodeRegion) (normalize voiceRegion) \<or>
      includes_str (normalize voiceRegion) (normalize nodeRegion))"

definition regionalNodesOf :: "Node list \<Rightarrow> string \<Rightarrow> Node list" where
  "regionalNodesOf connectedNodes voiceRegion =
     filter (\<lambda>node. truthy (region (options node)) \<and>
                     matchesRegion (the (region (options node))) voiceRegion) connectedNodes"

definition getBestNode :: "NodeManager \<Rightarrow> string option \<Rightarrow> error + Node" where
  "getBestNode m voiceRegion =
     (let connectedNodes = getConnectedNodes m
      in if length connectedNodes = 0 then Inl NoConnectedNodes
         else if truthy voiceRegion \<and>
                 length (regionalNodesOf connectedNodes (the voiceRegion)) > 0
         then selectBestFromNodes m (regionalNodesOf connectedNodes (the voiceRegion))
         else selectBestFromNodes m connectedNodes)"


section \<open>Tracks and search results\<close>

text \<open>Of a track's information, the fields that the player and the autoplay read.\<close>

record TrackInfo =
  identifier_t :: string
  author :: string
  title :: string
  uri :: "string option"
  sourceName :: string

record Track =
  encoded :: string
  info :: TrackInfo

datatype LoadResult =
    LoadTrack Track
  | LoadPlaylist "Track list"
  | LoadSearch "Track list"
  | LoadEmpty
  | LoadError

text \<open>
  The backend as a player sees it during one call: the answer of \<open>loadTracks\<close> to an
  identifier (\<open>Inl\<close> when the request is rejected), whether the \<open>updatePlayer\<close> request
  succeeds, and the value that \<open>Math.random()\<close> returns.
\<close>

record Env =
  loadTracks :: "string \<Rightarrow> error + LoadResult"
  updatePlayerOk :: bool
  mathRandom :: rat

section \<open>AutoPlay: the played identifiers\<close>

text \<open>
  \<open>playedIdentifiers\<close> is a \<open>Set\<close> of strings, which iterates in insertion order: a list,
  oldest first. Adding a string that is present changes nothing.
\<close>

record AutoPlay =
  playedIdentifiers :: "string list"
  maxHistorySize :: nat

definition new_AutoPlay :: AutoPlay where
  "new_AutoPlay = \<lparr> playedIdentifiers = [], maxHistorySize = 50 \<rparr>"

definition set_add :: "'a \<Rightarrow> 'a list \<Rightarrow> 'a list" where
  "set_add x xs = (if x \<in> set xs then xs else xs @ [x])"

definition set_delete :: "'a \<Rightarrow> 'a list \<Rightarrow> 'a list" where
  "set_delete x xs = removeAll x xs"

text \<open>The part of \<open>execute\<close> headed ``Add to played history''.\<close>

definition addPlayed :: "string \<Rightarrow> AutoPlay \<Rightarrow> AutoPlay" where
  "addPlayed ident ap =
     (let ids = set_add ident (playedIdentifiers ap)
      in if length ids > maxHistorySize ap
         then (case ids of
                 [] \<Rightarrow> ap\<lparr>playedIdentifiers := ids\<rparr>
               | firstItem # _ \<Rightarrow>
                   if firstItem \<noteq> [] then ap\<lparr>playedIdentifiers := set_delete firstItem ids\<rparr>
                   else ap\<lparr>playedIdentifiers := ids\<rparr>)
         else ap\<lparr>playedIdentifiers := ids\<rparr>)"

text \<open>\<open>info.identifier || info.uri\<close>: the identifier unless it is empty, the URI otherwise.\<close>

definition idOrUri :: "Track \<Rightarrow> string option" where
  "idOrUri t = (if identifier_t (info t) \<noteq> [] then Some (identifier_t (info t)) else uri (info t))"

definition notPlayed :: "AutoPlay \<Rightarrow> Track \<Rightarrow> bool" where
  "notPlayed ap t = (truthy (idOrUri t) \<and> the (idOrUri t) \<notin> set (playedIdentifiers ap))"

section \<open>Player: the playback of one guild\<close>

datatype LoopMode = LoopOff | LoopTrack | LoopQueue

datatype TrackEndReason = Finished | LoadFailed | Stopped | Replaced | Cleanup

datatype PlayerSignal = QueueEnd

text \<open>
  \<open>sentTracks\<close> lists the encoded tracks that the player has told the backend to play, in
  the order of the requests; \<open>positionUpdateInterval\<close> says whether the position timer
  runs; \<open>signals\<close> lists the events emitted to the owner. Debug messages are left out.
\<close>

record Player =
  node :: Node
  track :: "Track option"
  position :: int
  queue :: "Track list"
  previousTracks :: "Track list"
  history :: "Track list"
  loopMode :: LoopMode
  autoPlay :: bool
  autoPlayEngine :: AutoPlay
  historyMaxSize :: nat
  positionUpdateInterval :: bool
  sentTracks :: "string list"
  signals :: "PlayerSignal list"

definition isUrl :: "string \<Rightarrow> bool" where
  "isUrl query = (prefix ''http://'' query \<or> prefix ''https://'' query)"

definition search :: "Env \<Rightarrow> string \<Rightarrow> string \<Rightarrow> error + LoadResult" where
  "search env query platform =
     loadTracks env (if isUrl query then query else platform @ '':'' @ query)"

definition addTrack :: "Track \<Rightarrow> Player \<Rightarrow> Player" where
  "addTrack t p = p\<lparr>queue := queue p @ [t]\<rparr>"

definition clearPositionUpdate :: "Player \<Rightarrow> Player" where
  "clearPositionUpdate p = p\<lparr>positionUpdateInterval := False\<rparr>"

definition startPositionUpdate :: "Player \<Rightarrow> Player" where
  "startPositionUpdate p = (clearPositionUpdate p)\<lparr>positionUpdateInterval := True\<rparr>"

text \<open>
  \<open>play\<close>: the given track, or else the head of the queue, becomes the current track
  before the request to the backend is made; a failed request is an error.
\<close>

definition play :: "Env \<Rightarrow> Track option \<Rightarrow> Player \<Rightarrow> (error + unit) \<times> Player" where
  "play env given p =
     (case (case given of
              Some t \<Rightarrow> Some (t, queue p)
            | None \<Rightarrow> (case queue p of [] \<Rightarrow> None | h # q \<Rightarrow> Some (h, q))) of
        None \<Rightarrow> (Inl NoTrack, p)
      | Some (trackToPlay, q) \<Rightarrow>
         (let p1 = p\<lparr>queue := q, track := Some trackToPlay\<rparr>
          in if updatePlayerOk env
             then (Inr (), startPositionUpdate
                             (p1\<lparr>sentTracks := sentTracks p1 @ [encoded trackToPlay]\<rparr>))
             else (Inl RequestFailed, p1)))"

subsection \<open>The autoplay strategies\<close>

text \<open>The lines ``Filter out already played tracks'' with the reset that follows them.\<close>

definition availableOf :: "AutoPlay \<Rightarrow> Track list \<Rightarrow> Track list" where
  "availableOf ap tracks =
     (let availableTracks = filter (notPlayed ap) tracks
      in if length availableTracks = 0 then tracks else availableTracks)"

text \<open>``Pick a random track'', add it to the queue and play.\<close>

definition pickRandom :: "Env \<Rightarrow> Track list \<Rightarrow> Track" where
  "pickRandom env ts = ts ! nat \<lfloor>mathRandom env * of_nat (length ts)\<rfloor>"

definition playRandom :: "Env \<Rightarrow> Track list \<Rightarrow> Player \<Rightarrow> (error + bool) \<times> Player" where
  "playRandom env availableTracks p =
     (if length availableTracks = 0 then (Inr False, p)
      else (let randomTrack = pickRandom env availableTracks
            in case play env None (addTrack randomTrack p) of
                 (Inl e, p') \<Rightarrow> (Inl e, p')
               | (Inr _, p') \<Rightarrow> (Inr True, p')))"

definition handleYouTube :: "Env \<Rightarrow> AutoPlay \<Rightarrow> Track \<Rightarrow> Player \<Rightarrow> (error + bool) \<times> Player" where
  "handleYouTube env ap previousTrack p =
     (let ident = identifier_t (info previousTrack)
      in if ident = [] then (Inr False, p)
         else (case search env (''https://www.youtube.com/watch?v='' @ ident @ ''&list=RD'' @ ident)
                      ''ytsearch'' of
                 Inl e \<Rightarrow> (Inl e, p)
               | Inr result \<Rightarrow>
                   if result = LoadError \<or> result = LoadEmpty then (Inr False, p)
                   else (let tracks =
                               (case result of
                                  LoadPlaylist ts \<Rightarrow> ts
                                | LoadSearch ts \<Rightarrow> ts
                                | LoadTrack t \<Rightarrow> [t]
                                | _ \<Rightarrow> [])
                         in playRandom env (availableOf ap tracks) p)))"

definition handleSoundCloud :: "Env \<Rightarrow> AutoPlay \<Rightarrow> Track \<Rightarrow> Player \<Rightarrow> (error + bool) \<times> Player" where
  "handleSoundCloud env ap previousTrack p =
     (if \<not> truthy (uri (info previousTrack)) then (Inr False, p)
      else (case search env (title (info previousTrack) @ '' '' @ author (info previousTrack))
                   ''scsearch'' of
              Inl e \<Rightarrow> (Inl e, p)
            | Inr result \<Rightarrow>
                if result = LoadError \<or> result = LoadEmpty then (Inr False, p)
                else (let tracks =
                            (case result of
                               LoadSearch ts \<Rightarrow> ts
                             | LoadTrack t \<Rightarrow> [t]
                             | _ \<Rightarrow> [])
                      in playRandom env (availableOf ap tracks) p)))"

definition handleSpotify :: "Env \<Rightarrow> AutoPlay \<Rightarrow> Track \<Rightarrow> Player \<Rightarrow> (error + bool) \<times> Player" where
  "handleSpotify env ap previousTrack p =
     (if title (info previousTrack) = [] \<or> author (info previousTrack) = [] then (Inr False, p)
      else (case search env (author (info previousTrack)) ''spsearch'' of
              Inl e \<Rightarrow> (Inl e, p)
            | Inr artistResult \<Rightarrow>
                if artistResult = LoadEmpty \<or> artistResult = LoadError then (Inr False, p)
                else (let artistTracks =
                            (case artistResult of
                               LoadSearch ts \<Rightarrow> ts
                             | LoadTrack t \<Rightarrow> [t]
                             | _ \<Rightarrow> [])
                      in if length artistTracks = 0 then (Inr False, p)
                         else playRandom env (availableOf ap artistTracks) p)))"

text \<open>
  \<open>execute\<close>: the identifier of the ended track is remembered first; the strategy for
  the track's source runs inside \<open>try\<close>, and what it throws becomes the answer \<open>false\<close>.
\<close>

definition dispatch :: "Env \<Rightarrow> AutoPlay \<Rightarrow> Track \<Rightarrow> Player \<Rightarrow> (error + bool) \<times> Player" where
  "dispatch env ap previousTrack p =
     (let sourceName' = sourceName (info previousTrack)
      in if sourceName' = ''youtube'' then handleYouTube env ap previousTrack p
         else if sourceName' = ''soundcloud'' then handleSoundCloud env ap previousTrack p
         else if sourceName' = ''spotify'' then handleSpotify env ap previousTrack p
         else handleYouTube env ap previousTrack p)"

definition execute ::
  "Env \<Rightarrow> Track option \<Rightarrow> AutoPlay \<Rightarrow> Player \<Rightarrow> (error + bool) \<times> AutoPlay \<times> Player" where
  "execute env previousTrack ap p =
     (case previousTrack of
        None \<Rightarrow> (Inr False, ap, p)
      | Some prev \<Rightarrow>
         if \<not> isConnected (node p) then (Inr False, ap, p)
         else (let ident = idOrUri prev;
                   ap1 = (if truthy ident then addPlayed (the ident) ap else ap)
               in case dispatch env ap1 prev p of
                    (Inr b, p') \<Rightarrow> (Inr b, ap1, p')
                  | (Inl e, p') \<Rightarrow> (Inr False, ap1, p')))"

subsection \<open>The end of a track\<close>







section \<open>Notions used to state the properties\<close>

text \<open>
  The terms of the penalty in the order in which \<open>getPenalty\<close> adds them: the players,
  twice the playing players, the load of each core times 100 when there is a positive
  number of cores, 500 times the excess of the memory ratio over 0.8 when there is one,
  and twice the frame deficit followed by the nulled frames when frame statistics are
  present.
\<close>

definition memoryRatio :: "NodeStats \<Rightarrow> jsnum" where
  "memoryRatio s = jsdiv (used (memory s)) (allocated (memory s))"

definition penaltyTerms :: "NodeStats \<Rightarrow> jsnum list" where
  "penaltyTerms s =
     [players s, jsmul (playingPlayers s) (Fin 2)]
     @ (if jsgt (cores (cpu s)) (Fin 0)
        then [jsmul (jsdiv (lavalinkLoad (cpu s)) (cores (cpu s))) (Fin 100)] else [])
     @ (if jsgt (memoryRatio s) (num (8 / 10))
        then [jsmul (jssub (memoryRatio s) (num (8 / 10))) (Fin 500)] else [])
     @ (case frameStats s of
          None \<Rightarrow> []
        | Some f \<Rightarrow> [jsmul (deficit f) (Fin 2), nulled f])"

definition weightedSum :: "NodeStats \<Rightarrow> jsnum" where
  "weightedSum s = foldl jsadd (Fin 0) (penaltyTerms s)"

text \<open>
  The fuzzy match of two region names: without regard to case and to the separators
  \<open>-\<close> and \<open>_\<close>, one is a contiguous part of the other.
\<close>

definition fuzzyMatch :: "string \<Rightarrow> string \<Rightarrow> bool" where
  "fuzzyMatch a b = (sublist (normalize a) (normalize b) \<or> sublist (normalize b) (normalize a))"

text \<open>
  The set a selection is made from: the connected nodes with a region that matches the
  hint, when a hint is given and there is such a node, and all connected nodes otherwise.
\<close>

definition regionalOf :: "NodeManager \<Rightarrow> string \<Rightarrow> Node list" where
  "regionalOf m v =
     filter (\<lambda>n. case region (options n) of
                    None \<Rightarrow> False
                  | Some r \<Rightarrow> r \<noteq> [] \<and> fuzzyMatch r v)
       (getConnectedNodes m)"

definition candidatesOf :: "NodeManager \<Rightarrow> string option \<Rightarrow> Node list" where
  "candidatesOf m voiceRegion =
     (case voiceRegion of
        None \<Rightarrow> getConnectedNodes m
      | Some v \<Rightarrow> if v \<noteq> [] \<and> regionalOf m v \<noteq> [] then regionalOf m v
                  else getConnectedNodes m)"

text \<open>The delays of consecutive reconnection attempts, one random draw for each.\<close>

fun delays :: "ExponentialBackoff \<Rightarrow> rat list \<Rightarrow> rat list" where
  "delays b [] = []"
| "delays b (u # us) = (case backoff_next b u of (d, b') \<Rightarrow> d # delays b' us)"

text \<open>
  A sequence of autoplay executions on one engine, each with its own backend answers,
  ended track and player.
\<close>

fun executions :: "(Env \<times> Track option \<times> Player) list \<Rightarrow> AutoPlay \<Rightarrow> AutoPlay" where
  "executions [] ap = ap"
| "executions ((env, previousTrack, p) # calls) ap =
     executions calls (fst (snd (execute env previousTrack ap p)))"

text \<open>
  What happens at a node while its socket is open: a message arrives, with the outcome
  of the request it may cause, or the interval callback of the heartbeat runs. \<open>deliver\<close>
  hands a sequence of these to the node, each at its time. \<open>lastPlayerUpdate\<close> is the
  arrival time of the last player update of the sequence, and \<open>t0\<close> when it has none.
\<close>

datatype Arrival = Incoming "string option" Message | HeartbeatCheck

fun deliver :: "(int \<times> Arrival) list \<Rightarrow> Node \<Rightarrow> Node" where
  "deliver [] n = n"
| "deliver ((t, Incoming outcome data) # rest) n = deliver rest (onMessage t outcome data n)"
| "deliver ((t, HeartbeatCheck) # rest) n = deliver rest (heartbeat_tick t n)"

definition isPlayerUpdate :: "Message \<Rightarrow> bool" where
  "isPlayerUpdate data = (case data of Payload (PlayerUpdateEvent _) \<Rightarrow> True | _ \<Rightarrow> False)"

fun lastPlayerUpdate :: "int \<Rightarrow> (int \<times> Arrival) list \<Rightarrow> int" where
  "lastPlayerUpdate t0 [] = t0"
| "lastPlayerUpdate t0 ((t, Incoming outcome data) # rest) =
     lastPlayerUpdate (if isPlayerUpdate data then t else t0) rest"
| "lastPlayerUpdate t0 ((t, HeartbeatCheck) # rest) = lastPlayerUpdate t0 rest"

text \<open>
  An autoplay attempt by its parts. \<open>strategyApplies\<close>: the ended track has what the
  strategy of its source needs, the identifier for YouTube and for every source
  without a strategy of its own, the URI for SoundCloud, title and author for Spotify.
  \<open>strategyRequest\<close>: the identifier that the strategy sends to \<open>loadTracks\<close>.
  \<open>answerTracks\<close>: the candidates in an answer, which are the tracks of a search
  result, the one track of a track result and, for the YouTube strategy only, the tracks
  of a playlist. \<open>foundTracks\<close>: the candidates of an attempt, none when the search is
  rejected.
\<close>

definition strategyApplies :: "Track \<Rightarrow> bool" where
  "strategyApplies prev =
     (if sourceName (info prev) = ''soundcloud'' then truthy (uri (info prev))
      else if sourceName (info prev) = ''spotify''
      then title (info prev) \<noteq> [] \<and> author (info prev) \<noteq> []
      else identifier_t (info prev) \<noteq> [])"

definition searchIdentifier :: "string \<Rightarrow> string \<Rightarrow> string" where
  "searchIdentifier query platform = (if isUrl query then query else platform @ '':'' @ query)"

definition strategyRequest :: "Track \<Rightarrow> string" where
  "strategyRequest prev =
     (if sourceName (info prev) = ''soundcloud''
      then searchIdentifier (title (info prev) @ '' '' @ author (info prev)) ''scsearch''
      else if sourceName (info prev) = ''spotify''
      then searchIdentifier (author (info prev)) ''spsearch''
      else searchIdentifier
             (''https://www.youtube.com/watch?v='' @ identifier_t (info prev) @ ''&list=RD''
                @ identifier_t (info prev)) ''ytsearch'')"

definition answerTracks :: "string \<Rightarrow> LoadResult \<Rightarrow> Track list" where
  "answerTracks source result =
     (case result of
        LoadSearch ts \<Rightarrow> ts
      | LoadTrack t \<Rightarrow> [t]
      | LoadPlaylist ts \<Rightarrow> (if source = ''soundcloud'' \<or> source = ''spotify'' then [] else ts)
      | LoadEmpty \<Rightarrow> []
      | LoadError \<Rightarrow> [])"

definition foundTracks :: "Env \<Rightarrow> Track \<Rightarrow> Track list" where
  "foundTracks env prev =
     (case loadTracks env (strategyRequest prev) of
        Inl _ \<Rightarrow> []
      | Inr result \<Rightarrow> answerTracks (sourceName (info prev)) result)"

section \<open>Concrete configurations\<close>

definition ex_options :: "string \<Rightarrow> string option \<Rightarrow> int option \<Rightarrow> NodeOptions" where
  "ex_options nm rg attempts =
     \<lparr> opt_name = nm, opt_host = ''localhost'', opt_port = 2333,
       opt_password = ''youshallnotpass'', opt_secure = None, opt_resumeKey = None,
       opt_resumeTimeout = None, opt_maxReconnectAttempts = attempts,
       opt_reconnectDelay = None, opt_region = rg \<rparr>"

text \<open>A node that connected at time 0.\<close>

definition ex_connected :: "string \<Rightarrow> string option \<Rightarrow> int option \<Rightarrow> Node" where
  "ex_connected nm rg attempts =
     snd (connect (new_Node (ex_options nm rg attempts)) ''client'' SocketOpened 0 0)"

text \<open>Statistics whose only load is a number of idle players.\<close>

definition ex_stats :: "rat \<Rightarrow> NodeStats" where
  "ex_stats k =
     \<lparr> players = Fin k, playingPlayers = Fin 0, uptime = Fin 60000,
       memory = \<lparr> free = Fin 3, used = Fin 1, allocated = Fin 4, reservable = Fin 8 \<rparr>,
       cpu = \<lparr> cores = Fin 0, systemLoad = Fin 0, lavalinkLoad = Fin 0 \<rparr>,
       frameStats = None \<rparr>"

definition ex_node :: "string \<Rightarrow> string option \<Rightarrow> rat \<Rightarrow> Node" where
  "ex_node nm rg k = handleStatsEvent (ex_stats k) (ex_connected nm rg None)"

text \<open>
  A node with statistics whose heartbeat timed out 75 seconds after it connected: the
  socket is closing, and the close event has not arrived yet.
\<close>

definition ex_closing :: "string \<Rightarrow> string option \<Rightarrow> rat \<Rightarrow> Node" where
  "ex_closing nm rg k = heartbeat_tick 75000 (ex_node nm rg k)"

definition ex_manager :: "Node list \<Rightarrow> NodeManager" where
  "ex_manager ns =
     \<lparr> nodes = map (\<lambda>n. (name (options n), n)) ns, clientId = Some ''client'',
       customPenaltyCalculator = None \<rparr>"

text \<open>
  Statistics as a backend reports them: three cores at a load of 0.1, a quarter of the
  memory in use, a frame deficit of 4 and 5 nulled frames.
\<close>

definition ex_stats_frames :: NodeStats where
  "ex_stats_frames =
     \<lparr> players = Fin 0, playingPlayers = Fin 0, uptime = Fin 60000,
       memory = \<lparr> free = Fin 3, used = Fin 1, allocated = Fin 4, reservable = Fin 8 \<rparr>,
       cpu = \<lparr> cores = Fin 3, systemLoad = num (1 / 2), lavalinkLoad = num (1 / 10) \<rparr>,
       frameStats = Some \<lparr> sent = Fin 3000, nulled = Fin 5, deficit = Fin 4 \<rparr> \<rparr>"

definition ex_node_frames :: Node where
  "ex_node_frames = handleStatsEvent ex_stats_frames (ex_connected ''main'' None None)"


text \<open>Registries for the selection: the nodes are listed in the order they were added.\<close>

definition ex_pool_528 :: NodeManager where
  "ex_pool_528 = ex_manager [ex_node ''a'' None 5, ex_node ''b'' None 2, ex_node ''c'' None 8]"

definition ex_pool_regions :: NodeManager where
  "ex_pool_regions =
     ex_manager [ex_node ''a'' (Some ''eu-central'') 2, ex_node ''b'' (Some ''US_West'') 5]"

definition ex_pool_statsless :: NodeManager where
  "ex_pool_statsless =
     ex_manager [ex_connected ''a'' (Some ''us-west'') None, ex_node ''b'' (Some ''eu'') 2]"

definition ex_pool_closing :: NodeManager where
  "ex_pool_closing =
     ex_manager [ex_closing ''a'' (Some ''us-west'') 2, ex_node ''b'' (Some ''eu'') 5]"

definition ex_pool_mixed :: NodeManager where
  "ex_pool_mixed = ex_manager [ex_node ''a'' None 2, ex_node ''b'' (Some ''eu'') 5]"

definition ex_pool_fresh :: NodeManager where
  "ex_pool_fresh = ex_manager [ex_connected ''a'' None None, ex_connected ''b'' None None]"

text \<open>A registry with a scorer of its owner's, which gives every node the penalty 1.\<close>

definition ex_pool_custom :: NodeManager where
  "ex_pool_custom =
     (ex_manager [ex_connected ''a'' None None, ex_node ''b'' None 2])
       \<lparr>customPenaltyCalculator := Some (\<lambda>n. Fin 1)\<rparr>"

definition ex_pool_one :: NodeManager where
  "ex_pool_one = ex_manager [ex_node ''a'' None 5]"

text \<open>Tracks, a backend that accepts every request, and a player on a connected node.\<close>

definition ex_track :: "string \<Rightarrow> string \<Rightarrow> Track" where
  "ex_track ident source =
     \<lparr> encoded = ''enc:'' @ ident,
       info = \<lparr> identifier_t = ident, author = ''artist'', title = ''song '' @ ident,
                uri = Some (''https://example.org/'' @ ident), sourceName = source \<rparr> \<rparr>"

definition ex_env :: "LoadResult \<Rightarrow> Env" where
  "ex_env answer = \<lparr> loadTracks = (\<lambda>_. Inr answer), updatePlayerOk = True, mathRandom = 1 / 2 \<rparr>"

definition ex_player :: "Track option \<Rightarrow> Track list \<Rightarrow> LoopMode \<Rightarrow> Player" where
  "ex_player current pending mode =
     \<lparr> node = ex_node ''main'' None 0, track = current, position = 0, queue = pending,
       previousTracks = [], history = [], loopMode = mode, autoPlay = True,
       autoPlayEngine = new_AutoPlay, historyMaxSize = 50, positionUpdateInterval = True,
       sentTracks = [], signals = [] \<rparr>"

definition ex_A :: Track where "ex_A = ex_track ''A'' ''youtube''"

definition ex_B :: Track where "ex_B = ex_track ''B'' ''youtube''"

definition ex_C :: Track where "ex_C = ex_track ''C'' ''youtube''"


text \<open>
  Tracks with the identifiers \<open>x\<close>, \<open>xx\<close>, \<open>xxx\<close> and so on, and the executions of autoplay
  for the first \<open>n\<close> of them, each on an idle player whose backend finds nothing.
\<close>

definition ex_id :: "nat \<Rightarrow> string" where
  "ex_id i = replicate (Suc i) (CHR ''x'')"

definition ex_calls :: "nat \<Rightarrow> (Env \<times> Track option \<times> Player) list" where
  "ex_calls n =
     map (\<lambda>i. (ex_env LoadEmpty, Some (ex_track (ex_id i) ''youtube''), ex_player None [] LoopOff))
       [0..<n]"

text \<open>
  An engine that has executed for \<open>B\<close> and for \<open>C\<close>, a backend that rejects every search
  and one that refuses to play.
\<close>

definition ex_played :: AutoPlay where
  "ex_played =
     executions [(ex_env LoadEmpty, Some ex_B, ex_player None [] LoopOff),
                 (ex_env LoadEmpty, Some ex_C, ex_player None [] LoopOff)] new_AutoPlay"

definition ex_env_rejecting :: Env where
  "ex_env_rejecting =
     \<lparr> loadTracks = (\<lambda>_. Inl RequestFailed), updatePlayerOk = True, mathRandom = 1 / 2 \<rparr>"

definition ex_env_refusing :: Env where
  "ex_env_refusing = (ex_env (LoadSearch [ex_B, ex_C]))\<lparr>updatePlayerOk := False\<rparr>"

text \<open>
  A node at the moment its socket opens, and what then happens: the heartbeat check
  every 15 s, the ready message at 10 s, a player update at 20 s, statistics at 70 s,
  a track start at 80 s and data that is not JSON at 85 s.
\<close>

definition ex_opening :: "string \<Rightarrow> string option \<Rightarrow> int option \<Rightarrow> Node" where
  "ex_opening nm rg attempts =
     (new_Node (ex_options nm rg attempts))
       \<lparr>state := CONNECTING, ws := Some \<lparr>readyState = WS_OPEN, closeCode = None\<rparr>\<rparr>"

definition ex_traffic :: "(int \<times> Arrival) list" where
  "ex_traffic =
     [(10000, Incoming None (Payload (ReadyEvent ''session'' False))),
      (15000, HeartbeatCheck),
      (20000, Incoming None (Payload (PlayerUpdateEvent ''guild''))),
      (30000, HeartbeatCheck),
      (45000, HeartbeatCheck),
      (60000, HeartbeatCheck),
      (70000, Incoming None (Payload (StatsEvent (ex_stats 1)))),
      (75000, HeartbeatCheck),
      (80000, Incoming None (Payload (TrackEvent TrackStartEvent ''guild''))),
      (85000, Incoming None (Malformed ''Unexpected token''))]"

text \<open>A backend that answers every search with the playlist of \<open>B\<close> and \<open>C\<close>.\<close>

definition ex_env_playlist :: Env where
  "ex_env_playlist = ex_env (LoadPlaylist [ex_B, ex_C])"

section \<open>The penalty of a node\<close>

lemma getPenalty_not_connected: "\<not> isConnected n \<Longrightarrow> getPenalty n = PInf"
  by (simp add: getPenalty_def)

lemma getPenalty_no_stats: "stats n = None \<Longrightarrow> getPenalty n = PInf"
  by (simp add: getPenalty_def)

lemma getPenalty_connected:
  "isConnected n \<Longrightarrow> stats n = Some s \<Longrightarrow> getPenalty n = weightedSum s"
  by (simp add: getPenalty_def weightedSum_def penaltyTerms_def memoryRatio_def Let_def
           split: option.splits)

lemmas ex_node_defs =
  ex_node_def ex_connected_def ex_closing_def connect_def new_Node_def onOpen_def
  handleStatsEvent_def heartbeat_tick_def emit_def startHeartbeat_def ws_close_def
  backoff_reset_def orDefault_def ex_options_def

lemma ex_node_connected: "isConnected (ex_node nm rg k)"
  by (simp add: ex_node_defs isConnected_def)

lemma ex_node_stats: "stats (ex_node nm rg k) = Some (ex_stats k)"
  by (simp add: ex_node_defs)

lemma ex_closing_state: "state (ex_closing nm rg k) = CONNECTED"
  by (simp add: ex_node_defs)

lemma ex_closing_stats: "stats (ex_closing nm rg k) = Some (ex_stats k)"
  by (simp add: ex_node_defs)

lemma ex_closing_not_connected: "\<not> isConnected (ex_closing nm rg k)"
  by (simp add: ex_node_defs isConnected_def)

lemma weightedSum_ex_5: "weightedSum (ex_stats 5) = Fin 5"
  by code_simp

text \<open>
  C1, as the code has it. The penalty is \<open>Infinity\<close> when the node is not connected or
  has no statistics yet, where connected means that the state is \<open>CONNECTED\<close> and the
  socket is open; otherwise it is the sum, taken from the left and starting at 0, of
  the terms of \<open>penaltyTerms\<close>: the players, twice the playing players, the load of each
  core times 100 when the number of cores is positive, 500 times the excess of
  used/allocated over 0.8 when it exceeds 0.8, and twice the frame deficit and the nulled
  frames when frame statistics are present.
\<close>

theorem getPenalty_weighted_sum:
  "(\<not> isConnected n \<or> stats n = None \<longrightarrow> getPenalty n = PInf) \<and>
   (isConnected n \<and> stats n = Some s \<longrightarrow> getPenalty n = weightedSum s)"
  using getPenalty_not_connected getPenalty_no_stats getPenalty_connected by blast

text \<open>
  C1 at a node whose socket is closing, and at a connected node that reports 5 idle
  players.
\<close>

theorem getPenalty_weighted_sum_witness:
  "getPenalty (ex_closing ''main'' None 5) = PInf \<and>
   getPenalty (ex_node ''main'' None 5) = weightedSum (ex_stats 5)"
  using getPenalty_weighted_sum [of "ex_closing ''main'' None 5"]
        getPenalty_weighted_sum [of "ex_node ''main'' None 5" "ex_stats 5"]
        ex_closing_not_connected ex_node_connected ex_node_stats
  by simp

text \<open>
  C1 as it is stated fails for a node whose state is \<open>CONNECTED\<close> and which has
  statistics, while its socket is closing: the stated penalty is the weighted sum, 5,
  and the penalty of the code is \<open>Infinity\<close>.
\<close>

theorem getPenalty_closing_socket_counterexample:
  "state (ex_closing ''main'' None 5) = CONNECTED \<and>
   stats (ex_closing ''main'' None 5) = Some (ex_stats 5) \<and>
   weightedSum (ex_stats 5) = Fin 5 \<and>
   getPenalty (ex_closing ''main'' None 5) = PInf"
  using ex_closing_state ex_closing_stats weightedSum_ex_5
        getPenalty_not_connected [OF ex_closing_not_connected]
  by simp


section \<open>Selection of the best node\<close>

lemma includes_str_sublist: "includes_str a b = sublist b a"
  by (induction a) (auto simp: sublist_Cons_right)

lemma matchesRegion_fuzzyMatch: "matchesRegion a b = fuzzyMatch a b"
  by (auto simp: matchesRegion_def fuzzyMatch_def includes_str_sublist)

lemma regionalNodesOf_regionalOf:
  "regionalNodesOf (getConnectedNodes m) v = regionalOf m v"
  unfolding regionalNodesOf_def regionalOf_def
  by (rule filter_cong) (auto simp: truthy_def matchesRegion_fuzzyMatch split: option.splits)

lemma getBestNode_candidates:
  "getBestNode m h =
     (if getConnectedNodes m = [] then Inl NoConnectedNodes
      else selectBestFromNodes m (candidatesOf m h))"
  by (auto simp: getBestNode_def candidatesOf_def Let_def truthy_def regionalNodesOf_regionalOf
           split: option.splits)

lemma candidatesOf_connected: "set (candidatesOf m h) \<subseteq> set (getConnectedNodes m)"
  by (auto simp: candidatesOf_def regionalOf_def split: option.splits)

lemma candidatesOf_nonempty: "getConnectedNodes m \<noteq> [] \<Longrightarrow> candidatesOf m h \<noteq> []"
  by (auto simp: candidatesOf_def split: option.splits)

lemma jslt_irrefl: "\<not> jslt a a"
  by (cases a) auto

lemma jslt_lower: "jslt p low \<Longrightarrow> \<not> jslt c low \<Longrightarrow> \<not> jslt c p"
  by (cases p; cases low; cases c) auto

lemma jslt_neq: "jslt p low \<Longrightarrow> \<not> jslt c low \<Longrightarrow> c \<noteq> p"
  by auto

lemma selectLoop_spec:
  assumes "\<forall>c\<in>set pre. f c \<noteq> f b"
      and "\<forall>c\<in>set pre \<union> set mid. \<not> jslt (f c) (f b)"
  shows "\<exists>pre' post. pre @ b # mid @ ns = pre' @ selectLoop f b (f b) ns # post \<and>
           (\<forall>c\<in>set pre'. f c \<noteq> f (selectLoop f b (f b) ns)) \<and>
           (\<forall>c\<in>set (pre @ b # mid @ ns). \<not> jslt (f c) (f (selectLoop f b (f b) ns)))"
  using assms
proof (induction ns arbitrary: b pre mid)
  case Nil
  have "pre @ b # mid @ [] = pre @ selectLoop f b (f b) [] # mid \<and>
        (\<forall>c\<in>set pre. f c \<noteq> f (selectLoop f b (f b) [])) \<and>
        (\<forall>c\<in>set (pre @ b # mid @ []). \<not> jslt (f c) (f (selectLoop f b (f b) [])))"
    using Nil by (auto simp: jslt_irrefl)
  then show ?case by blast
next
  case (Cons n ns)
  show ?case
  proof (cases "jslt (f n) (f b)")
    case True
    have 1: "\<forall>c\<in>set (pre @ b # mid). f c \<noteq> f n"
      using Cons.prems True jslt_irrefl by (metis Un_iff insert_iff list.simps(15) set_append)
    have 2: "\<forall>c\<in>set (pre @ b # mid) \<union> set []. \<not> jslt (f c) (f n)"
      using Cons.prems True jslt_lower jslt_irrefl
      by (metis Un_iff empty_iff empty_set insert_iff list.simps(15) set_append)
    from Cons.IH[of "pre @ b # mid" n "[]", OF 1 2] True show ?thesis
      by (simp add: Let_def)
  next
    case False
    have 2: "\<forall>c\<in>set pre \<union> set (mid @ [n]). \<not> jslt (f c) (f b)"
      using Cons.prems False by auto
    from Cons.IH[of pre b "mid @ [n]", OF Cons.prems(1) 2] False show ?thesis
      by (simp add: Let_def)
  qed
qed

lemma selectBestFromNodes_spec:
  assumes "ns \<noteq> []"
  shows "\<exists>r pre post. selectBestFromNodes m ns = Inr r \<and> ns = pre @ r # post \<and>
           (\<forall>c\<in>set pre. penaltyFnOf m c \<noteq> penaltyFnOf m r) \<and>
           (\<forall>c\<in>set ns. \<not> jslt (penaltyFnOf m c) (penaltyFnOf m r))"
proof -
  obtain b rest where ns: "ns = b # rest" using assms by (cases ns) auto
  from selectLoop_spec[of "[]" "penaltyFnOf m" b "[]" rest]
  show ?thesis by (auto simp: ns selectBestFromNodes_def Let_def)
qed


lemma getBestNode_returns:
  assumes "getConnectedNodes m \<noteq> []"
  shows "\<exists>r pre post. getBestNode m h = Inr r \<and> candidatesOf m h = pre @ r # post \<and>
           (\<forall>c\<in>set pre. penaltyFnOf m c \<noteq> penaltyFnOf m r) \<and>
           (\<forall>c\<in>set (candidatesOf m h). \<not> jslt (penaltyFnOf m c) (penaltyFnOf m r))"
  using selectBestFromNodes_spec[OF candidatesOf_nonempty[OF assms], of m h] assms
  by (simp add: getBestNode_candidates)

lemma getBestNode_fails_iff: "(\<exists>e. getBestNode m h = Inl e) \<longleftrightarrow> getConnectedNodes m = []"
  using getBestNode_returns[of m h] by (auto simp: getBestNode_candidates)

lemma getConnectedNodes_connected: "n \<in> set (getConnectedNodes m) \<Longrightarrow> isConnected n"
  by (simp add: getConnectedNodes_def)

lemma set_regionalOf:
  "set (regionalOf m v) =
     {n \<in> set (getConnectedNodes m).
        \<exists>r. region (options n) = Some r \<and> r \<noteq> [] \<and>
            (sublist (normalize r) (normalize v) \<or> sublist (normalize v) (normalize r))}"
  by (auto simp: regionalOf_def fuzzyMatch_def split: option.splits)

text \<open>
  C2, as the code has it. Whenever some node is connected, \<open>getBestNode\<close> returns a
  node; the node returned is connected (its state is \<open>CONNECTED\<close> and its socket is
  open); it is a node of the candidate list such that no candidate has a smaller
  penalty and no candidate before it, in the order of registration, has the same
  penalty. With the built-in scorer, a node without statistics is not returned when a
  candidate has a finite penalty.
\<close>

theorem getBestNode_minimum:
  "(getConnectedNodes m \<noteq> [] \<longrightarrow> (\<exists>r. getBestNode m h = Inr r)) \<and>
   (getBestNode m h = Inr r \<longrightarrow>
      isConnected r \<and>
      (\<exists>pre post. candidatesOf m h = pre @ r # post \<and>
         (\<forall>c\<in>set pre. penaltyFnOf m c \<noteq> penaltyFnOf m r)) \<and>
      (\<forall>c\<in>set (candidatesOf m h). \<not> jslt (penaltyFnOf m c) (penaltyFnOf m r)) \<and>
      (customPenaltyCalculator m = None \<and> (\<exists>c\<in>set (candidatesOf m h). \<exists>q. getPenalty c = Fin q)
         \<longrightarrow> stats r \<noteq> None))"
proof (intro conjI impI)
  assume "getConnectedNodes m \<noteq> []"
  then show "\<exists>r. getBestNode m h = Inr r"
    using getBestNode_returns[of m h] by blast
next
  assume r: "getBestNode m h = Inr r"
  then have ne: "getConnectedNodes m \<noteq> []"
    by (auto simp: getBestNode_candidates)
  from getBestNode_returns[OF ne, of h] r
  obtain pre post where cand: "candidatesOf m h = pre @ r # post"
    and first: "\<forall>c\<in>set pre. penaltyFnOf m c \<noteq> penaltyFnOf m r"
    and least: "\<forall>c\<in>set (candidatesOf m h). \<not> jslt (penaltyFnOf m c) (penaltyFnOf m r)"
    by auto
  have "r \<in> set (candidatesOf m h)" by (simp add: cand)
  then show "isConnected r"
    using candidatesOf_connected getConnectedNodes_connected by blast
  show "\<exists>pre post. candidatesOf m h = pre @ r # post \<and>
          (\<forall>c\<in>set pre. penaltyFnOf m c \<noteq> penaltyFnOf m r)"
    using cand first by blast
  show "\<forall>c\<in>set (candidatesOf m h). \<not> jslt (penaltyFnOf m c) (penaltyFnOf m r)"
    by (rule least)
  show "stats r \<noteq> None"
    if "customPenaltyCalculator m = None \<and> (\<exists>c\<in>set (candidatesOf m h). \<exists>q. getPenalty c = Fin q)"
  proof
    assume "stats r = None"
    then have "getPenalty r = PInf" by (rule getPenalty_no_stats)
    moreover from that obtain c q where "c \<in> set (candidatesOf m h)" "getPenalty c = Fin q"
      by blast
    moreover have "penaltyFnOf m = getPenalty" using that by (simp add: penaltyFnOf_def)
    ultimately show False using least by force
  qed
qed

text \<open>
  C3, as the code has it. \<open>getBestNode\<close> fails, with the error that no connected node
  is available, exactly when no node is connected, where connected means that the
  state is \<open>CONNECTED\<close> and the socket is open. Otherwise it selects from the candidate
  list: all connected nodes when no hint or the empty string is given; for a hint that
  is not empty, the connected nodes whose region is set, not empty and matches the hint
  when there is such a node, and all connected nodes when there is none. A region
  matches a hint when, both in lower case and without \<open>-\<close> and \<open>_\<close>, one is a contiguous
  part of the other.
\<close>

theorem getBestNode_region_hint:
  "(getConnectedNodes m = [] \<longrightarrow> getBestNode m h = Inl NoConnectedNodes) \<and>
   (getConnectedNodes m \<noteq> [] \<longrightarrow>
      (\<exists>r. getBestNode m h = Inr r \<and> r \<in> set (candidatesOf m h)) \<and>
      getBestNode m h = selectBestFromNodes m (candidatesOf m h)) \<and>
   candidatesOf m None = getConnectedNodes m \<and>
   candidatesOf m (Some []) = getConnectedNodes m \<and>
   (v \<noteq> [] \<longrightarrow>
      candidatesOf m (Some v) =
        (if regionalOf m v = [] then getConnectedNodes m else regionalOf m v)) \<and>
   set (regionalOf m v) =
     {n \<in> set (getConnectedNodes m).
        \<exists>r. region (options n) = Some r \<and> r \<noteq> [] \<and>
            (sublist (normalize r) (normalize v) \<or> sublist (normalize v) (normalize r))}"
proof (intro conjI impI)
  show "set (regionalOf m v) =
     {n \<in> set (getConnectedNodes m).
        \<exists>r. region (options n) = Some r \<and> r \<noteq> [] \<and>
            (sublist (normalize r) (normalize v) \<or> sublist (normalize v) (normalize r))}"
    by (rule set_regionalOf)
next
  assume ne: "getConnectedNodes m \<noteq> []"
  from getBestNode_returns[OF ne, of h]
  show "\<exists>r. getBestNode m h = Inr r \<and> r \<in> set (candidatesOf m h)" by auto
  show "getBestNode m h = selectBestFromNodes m (candidatesOf m h)"
    using ne by (simp add: getBestNode_candidates)
qed (auto simp: getBestNode_candidates candidatesOf_def)


lemma ex_pool_528_best: "getBestNode ex_pool_528 None = Inr (ex_node ''b'' None 2)"
  by code_simp

lemma ex_pool_528_candidates:
  "candidatesOf ex_pool_528 None = [ex_node ''a'' None 5, ex_node ''b'' None 2, ex_node ''c'' None 8]"
  by code_simp

lemma getPenalty_ex_node_2: "getPenalty (ex_node nm rg 2) = Fin 2"
proof -
  have "weightedSum (ex_stats 2) = Fin 2" by code_simp
  then show ?thesis
    using getPenalty_connected[OF ex_node_connected ex_node_stats] by simp
qed

lemma ex_pool_528_builtin: "customPenaltyCalculator ex_pool_528 = None"
  by (simp add: ex_pool_528_def ex_manager_def)

text \<open>
  The scenario of C2: three connected nodes with the penalties 5, 2 and 8, registered
  in this order. The node with penalty 2 is selected.
\<close>

theorem getBestNode_minimum_witness:
  "getBestNode ex_pool_528 None = Inr (ex_node ''b'' None 2) \<and>
   isConnected (ex_node ''b'' None 2) \<and>
   \<not> jslt (getPenalty (ex_node ''a'' None 5)) (getPenalty (ex_node ''b'' None 2)) \<and>
   \<not> jslt (getPenalty (ex_node ''c'' None 8)) (getPenalty (ex_node ''b'' None 2)) \<and>
   stats (ex_node ''b'' None 2) \<noteq> None"
  using getBestNode_minimum [of ex_pool_528 None "ex_node ''b'' None 2"]
        ex_pool_528_best ex_pool_528_candidates ex_pool_528_builtin
        getPenalty_ex_node_2 [of "''b''" None]
  by (auto simp: penaltyFnOf_def)

text \<open>
  C2 as it is stated fails in its last part, that a node without statistics is never
  returned while a connected alternative exists. With the hint \<open>us-west\<close> the node
  \<open>a\<close>, which has no statistics, is returned although the connected node \<open>b\<close> has
  statistics and the penalty 2, because only \<open>a\<close> matches the region. Of two connected
  nodes that have no statistics yet, the first is returned. Under a scorer of the
  owner's that gives every node the penalty 1, the node \<open>a\<close> without statistics is
  returned before the node \<open>b\<close> with statistics.
\<close>

theorem getBestNode_statsless_counterexample:
  "getBestNode ex_pool_statsless (Some ''us-west'') = Inr (ex_connected ''a'' (Some ''us-west'') None) \<and>
   stats (ex_connected ''a'' (Some ''us-west'') None) = None \<and>
   getConnectedNodes ex_pool_statsless =
     [ex_connected ''a'' (Some ''us-west'') None, ex_node ''b'' (Some ''eu'') 2] \<and>
   stats (ex_node ''b'' (Some ''eu'') 2) = Some (ex_stats 2) \<and>
   getPenalty (ex_node ''b'' (Some ''eu'') 2) = Fin 2 \<and>
   getBestNode ex_pool_fresh None = Inr (ex_connected ''a'' None None) \<and>
   stats (ex_connected ''a'' None None) = None \<and>
   getConnectedNodes ex_pool_fresh = [ex_connected ''a'' None None, ex_connected ''b'' None None] \<and>
   getBestNode ex_pool_custom None = Inr (ex_connected ''a'' None None) \<and>
   getConnectedNodes ex_pool_custom = [ex_connected ''a'' None None, ex_node ''b'' None 2]"
  by code_simp

lemma ex_pool_regions_regional:
  "regionalOf ex_pool_regions ''us-west'' = [ex_node ''b'' (Some ''US_West'') 5]"
  by code_simp

lemma ex_pool_regions_connected:
  "getConnectedNodes ex_pool_regions =
     [ex_node ''a'' (Some ''eu-central'') 2, ex_node ''b'' (Some ''US_West'') 5]"
  by code_simp

lemma ex_manager_empty: "getConnectedNodes (ex_manager []) = []"
  by (simp add: getConnectedNodes_def getNodes_def map_values_def ex_manager_def)

text \<open>
  C3 at an empty registry, and at a registry whose second node has the region
  \<open>US_West\<close>, for the hint \<open>us-west\<close>: the second node is the only candidate, although
  the first has the smaller penalty.
\<close>

theorem getBestNode_region_hint_witness:
  "getBestNode (ex_manager []) (Some ''us-west'') = Inl NoConnectedNodes \<and>
   candidatesOf ex_pool_regions (Some ''us-west'') = [ex_node ''b'' (Some ''US_West'') 5] \<and>
   getBestNode ex_pool_regions (Some ''us-west'') = Inr (ex_node ''b'' (Some ''US_West'') 5)"
  using getBestNode_region_hint [of "ex_manager []" "Some ''us-west''" "''us-west''"]
        getBestNode_region_hint [of ex_pool_regions "Some ''us-west''" "''us-west''"]
        ex_manager_empty ex_pool_regions_regional ex_pool_regions_connected
  by auto

text \<open>
  C3 as it is stated fails in two ways. A node in the state \<open>CONNECTED\<close> whose socket is
  closing is no candidate: the node \<open>a\<close> matches the hint \<open>us-west\<close> and the node \<open>b\<close>
  does not, yet \<open>b\<close> is returned; and when \<open>a\<close> is the only node the call fails. The
  empty string as hint restricts nothing: the region \<open>eu\<close> of \<open>b\<close> matches it, as every
  region does, yet \<open>a\<close>, which has no region, is returned.
\<close>

theorem getBestNode_region_hint_counterexample:
  "state (ex_closing ''a'' (Some ''us-west'') 2) = CONNECTED \<and>
   region (options (ex_closing ''a'' (Some ''us-west'') 2)) = Some ''us-west'' \<and>
   fuzzyMatch ''us-west'' ''us-west'' \<and>
   \<not> fuzzyMatch ''eu'' ''us-west'' \<and>
   getBestNode ex_pool_closing (Some ''us-west'') = Inr (ex_node ''b'' (Some ''eu'') 5) \<and>
   getBestNode (ex_manager [ex_closing ''a'' None 2]) None = Inl NoConnectedNodes \<and>
   fuzzyMatch ''eu'' '''' \<and>
   getBestNode ex_pool_mixed (Some '''') = Inr (ex_node ''a'' None 2) \<and>
   region (options (ex_node ''a'' None 2)) = None"
  by code_simp



section \<open>The penalty breakdown\<close>

lemma getPenaltyDetails_not_connected:
  "\<not> isConnected n \<or> stats n = None \<Longrightarrow> total (getPenaltyDetails n) = PInf"
  by (auto simp: getPenaltyDetails_def split: option.splits)

text \<open>
  C10 at a node that is connected and has received the statistics \<open>ex_stats_frames\<close>:
  no players, three cores at a load of 0.1, a quarter of the memory in use, a frame
  deficit of 4 and 5 nulled frames. \<open>getPenalty\<close> adds twice the deficit and then the
  nulled frames to the CPU term, which gives 16.333333333333336; \<open>getPenaltyDetails\<close>
  adds their sum 13 to the CPU term, which gives 16.333333333333332 as \<open>total\<close>. The
  two are one unit in the last place apart.
\<close>

theorem getPenaltyDetails_total_differs:
  "getPenalty ex_node_frames = Fin (2298712309803691 / 140737488355328) \<and>
   total (getPenaltyDetails ex_node_frames) = Fin (4597424619607381 / 281474976710656) \<and>
   total (getPenaltyDetails ex_node_frames) \<noteq> getPenalty ex_node_frames"
  by code_simp

section \<open>Adding a node\<close>

lemma map_delete_map_set: "\<not> map_has k m \<Longrightarrow> map_delete k (map_set k v m) = m"
  by (induction m) (auto simp: map_has_def map_delete_def split: if_splits)

lemma connect_new_Node:
  "fst (connect (new_Node opts) cid oc now u) = Inr () \<longleftrightarrow> oc = SocketOpened"
  by (cases oc) (auto simp: connect_def new_Node_def Let_def)

lemma addNode_duplicate:
  "map_has (opt_name opts) (nodes m) \<Longrightarrow>
   addNode m opts oc now u = (Inl (NodeExists (opt_name opts)), m)"
  by (simp add: addNode_def)

lemma addNode_failed:
  "fst (addNode m opts oc now u) = Inl e \<Longrightarrow> snd (addNode m opts oc now u) = m"
  by (auto simp: addNode_def Let_def map_delete_map_set split: if_splits prod.splits sum.splits)

lemma addNode_connect_error:
  "\<not> map_has (opt_name opts) (nodes m) \<Longrightarrow> truthy (clientId m) \<Longrightarrow>
   fst (connect (new_Node opts) (the (clientId m)) oc now u) = Inl e \<Longrightarrow>
   fst (addNode m opts oc now u) = Inl e"
  by (auto simp: addNode_def Let_def split: prod.splits sum.splits)

text \<open>
  C4. Adding a node whose name is registered fails with the error that the node exists
  and leaves the registry as it was. For a new name, an error of the connection attempt
  is the error of \<open>addNode\<close>, and the attempt fails whenever the socket does not open.
  After any failed \<open>addNode\<close> the registry is the one before the call: the entry that
  was set before the attempt is deleted again.
\<close>

theorem addNode_failure_leaves_registry:
  "(map_has (opt_name opts) (nodes m) \<longrightarrow>
      addNode m opts oc now u = (Inl (NodeExists (opt_name opts)), m)) \<and>
   (\<not> map_has (opt_name opts) (nodes m) \<and> truthy (clientId m) \<and>
    fst (connect (new_Node opts) (the (clientId m)) oc now u) = Inl e \<longrightarrow>
      fst (addNode m opts oc now u) = Inl e) \<and>
   (oc \<noteq> SocketOpened \<longrightarrow> (\<exists>e'. fst (addNode m opts oc now u) = Inl e')) \<and>
   (fst (addNode m opts oc now u) = Inl e \<longrightarrow> snd (addNode m opts oc now u) = m)"
proof (intro conjI impI)
  assume oc: "oc \<noteq> SocketOpened"
  show "\<exists>e'. fst (addNode m opts oc now u) = Inl e'"
  proof (cases "map_has (opt_name opts) (nodes m) \<or> \<not> truthy (clientId m)")
    case True
    then show ?thesis by (auto simp: addNode_def)
  next
    case False
    obtain e' where "fst (connect (new_Node opts) (the (clientId m)) oc now u) = Inl e'"
      using connect_new_Node[of opts "the (clientId m)" oc now u] oc
      by (cases "fst (connect (new_Node opts) (the (clientId m)) oc now u)") auto
    with False show ?thesis using addNode_connect_error by blast
  qed
qed (simp_all add: addNode_duplicate addNode_failed addNode_connect_error)

lemma ex_pool_one_has: "map_has ''a'' (nodes ex_pool_one) \<and> \<not> map_has ''b'' (nodes ex_pool_one) \<and> truthy (clientId ex_pool_one)"
  by (simp add: ex_pool_one_def ex_manager_def map_has_def truthy_def ex_node_defs)

lemma ex_connect_closed:
  "fst (connect (new_Node (ex_options ''b'' None None)) ''client'' (SocketClosed 1006) 0 0) = Inl ConnectionTimeout"
  by code_simp

text \<open>
  C4 at a registry that holds the node \<open>a\<close>: a second \<open>a\<close> is refused, and a node \<open>b\<close>
  whose socket closes with code 1006 fails to connect. The registry is unchanged both
  times.
\<close>

theorem addNode_failure_leaves_registry_witness:
  "addNode ex_pool_one (ex_options ''a'' None None) SocketOpened 0 0 = (Inl (NodeExists ''a''), ex_pool_one) \<and>
   fst (addNode ex_pool_one (ex_options ''b'' None None) (SocketClosed 1006) 0 0) = Inl ConnectionTimeout \<and>
   snd (addNode ex_pool_one (ex_options ''b'' None None) (SocketClosed 1006) 0 0) = ex_pool_one"
  using addNode_failure_leaves_registry [of "ex_options ''a'' None None" ex_pool_one SocketOpened 0 0]
        addNode_failure_leaves_registry [of "ex_options ''b'' None None" ex_pool_one "SocketClosed 1006" 0 0 ConnectionTimeout]
        ex_pool_one_has ex_connect_closed
  by (simp add: ex_options_def ex_pool_one_def ex_manager_def)

section \<open>The end of a track under queue looping\<close>










lemma ex_player_fields:
  "track (ex_player c q m) = c" "queue (ex_player c q m) = q" "loopMode (ex_player c q m) = m"
  "sentTracks (ex_player c q m) = []"
  by (simp_all add: ex_player_def)

lemma ex_env_ok: "updatePlayerOk (ex_env a)"
  by (simp add: ex_env_def)




section \<open>The bound on the played identifiers\<close>

lemma removeAll_hd_distinct: "distinct l \<Longrightarrow> l \<noteq> [] \<Longrightarrow> removeAll (hd l) l = tl l"
  by (cases l) auto

lemma addPlayed_size: "maxHistorySize (addPlayed x ap) = maxHistorySize ap"
  by (auto simp: addPlayed_def Let_def split: list.splits)

lemma addPlayed_present:
  "x \<in> set (playedIdentifiers ap) \<Longrightarrow> length (playedIdentifiers ap) \<le> maxHistorySize ap \<Longrightarrow>
   playedIdentifiers (addPlayed x ap) = playedIdentifiers ap"
  by (simp add: addPlayed_def set_add_def)

lemma addPlayed_below:
  "x \<notin> set (playedIdentifiers ap) \<Longrightarrow> length (playedIdentifiers ap) < maxHistorySize ap \<Longrightarrow>
   playedIdentifiers (addPlayed x ap) = playedIdentifiers ap @ [x]"
  by (simp add: addPlayed_def set_add_def)

lemma addPlayed_full:
  assumes "x \<notin> set (playedIdentifiers ap)" "length (playedIdentifiers ap) = maxHistorySize ap"
    and "distinct (playedIdentifiers ap)" "[] \<notin> set (playedIdentifiers ap)" "x \<noteq> []"
  shows "playedIdentifiers (addPlayed x ap) = tl (playedIdentifiers ap @ [x])"
proof -
  let ?ids = "playedIdentifiers ap @ [x]"
  have d: "distinct ?ids" using assms by simp
  have ne: "?ids \<noteq> []" by simp
  have hd_ne: "hd ?ids \<noteq> []" using assms by (cases "playedIdentifiers ap") auto
  have "playedIdentifiers (addPlayed x ap) = removeAll (hd ?ids) ?ids"
    using assms hd_ne
    by (cases "playedIdentifiers ap") (auto simp: addPlayed_def set_add_def set_delete_def Let_def)
  then show ?thesis using removeAll_hd_distinct[OF d ne] by simp
qed

lemma addPlayed_inv:
  assumes "length (playedIdentifiers ap) \<le> maxHistorySize ap"
    and "distinct (playedIdentifiers ap)" "[] \<notin> set (playedIdentifiers ap)" "x \<noteq> []"
  shows "length (playedIdentifiers (addPlayed x ap)) \<le> maxHistorySize ap \<and>
         distinct (playedIdentifiers (addPlayed x ap)) \<and>
         [] \<notin> set (playedIdentifiers (addPlayed x ap))"
proof (cases "x \<in> set (playedIdentifiers ap)")
  case True
  then show ?thesis using assms by (simp add: addPlayed_present)
next
  case False
  show ?thesis
  proof (cases "length (playedIdentifiers ap) < maxHistorySize ap")
    case True
    then show ?thesis using assms False by (simp add: addPlayed_below)
  next
    case full: False
    then have eq: "length (playedIdentifiers ap) = maxHistorySize ap" using assms by simp
    have "playedIdentifiers (addPlayed x ap) = tl (playedIdentifiers ap @ [x])"
      using addPlayed_full[OF False eq] assms by simp
    moreover have "distinct (tl (playedIdentifiers ap @ [x]))"
      using assms False by (simp add: distinct_tl)
    moreover have "[] \<notin> set (tl (playedIdentifiers ap @ [x]))"
      using assms by (cases "playedIdentifiers ap") auto
    ultimately show ?thesis using eq by simp
  qed
qed

lemma execute_engine:
  "fst (snd (execute env previousTrack ap p)) =
     (case previousTrack of
        None \<Rightarrow> ap
      | Some prev \<Rightarrow>
          if isConnected (node p) \<and> truthy (idOrUri prev) then addPlayed (the (idOrUri prev)) ap
          else ap)"
  by (auto simp: execute_def Let_def split: option.splits prod.splits sum.splits)

lemma execute_inv:
  assumes "length (playedIdentifiers ap) \<le> maxHistorySize ap"
    and "distinct (playedIdentifiers ap)" "[] \<notin> set (playedIdentifiers ap)"
  shows "length (playedIdentifiers (fst (snd (execute env previousTrack ap p)))) \<le> maxHistorySize ap \<and>
         distinct (playedIdentifiers (fst (snd (execute env previousTrack ap p)))) \<and>
         [] \<notin> set (playedIdentifiers (fst (snd (execute env previousTrack ap p)))) \<and>
         maxHistorySize (fst (snd (execute env previousTrack ap p))) = maxHistorySize ap"
proof (cases "\<exists>prev. previousTrack = Some prev \<and> isConnected (node p) \<and> truthy (idOrUri prev)")
  case True
  then obtain prev where p: "previousTrack = Some prev" "isConnected (node p)" "truthy (idOrUri prev)"
    by blast
  then have "the (idOrUri prev) \<noteq> []" by (auto simp: truthy_def split: option.splits)
  from addPlayed_inv[OF assms this] p show ?thesis
    by (simp add: execute_engine addPlayed_size)
next
  case False
  then show ?thesis using assms by (auto simp: execute_engine split: option.splits)
qed

lemma executions_inv:
  assumes "length (playedIdentifiers ap) \<le> maxHistorySize ap"
    and "distinct (playedIdentifiers ap)" "[] \<notin> set (playedIdentifiers ap)"
  shows "length (playedIdentifiers (executions calls ap)) \<le> maxHistorySize ap \<and>
         distinct (playedIdentifiers (executions calls ap)) \<and>
         [] \<notin> set (playedIdentifiers (executions calls ap)) \<and>
         maxHistorySize (executions calls ap) = maxHistorySize ap"
  using assms
proof (induction calls arbitrary: ap)
  case Nil
  then show ?case by simp
next
  case (Cons c calls)
  obtain env previousTrack p where c: "c = (env, previousTrack, p)" by (cases c) auto
  from execute_inv[OF Cons.prems, of env previousTrack p] Cons.IH[of "fst (snd (execute env previousTrack ap p))"]
  show ?case by (simp add: c)
qed

lemma executions_new_inv:
  "length (playedIdentifiers (executions calls new_AutoPlay)) \<le> 50 \<and>
   distinct (playedIdentifiers (executions calls new_AutoPlay)) \<and>
   [] \<notin> set (playedIdentifiers (executions calls new_AutoPlay)) \<and>
   maxHistorySize (executions calls new_AutoPlay) = 50"
  using executions_inv[of new_AutoPlay calls] by (simp add: new_AutoPlay_def)

text \<open>
  C8. After any sequence of autoplay executions on a new engine the set of played
  identifiers has at most 50 entries. An execution on a connected node whose ended track
  has a new identifier appends the identifier while fewer than 50 are held; when 50 are
  held, the one inserted first is dropped and the new one is appended at the end.
\<close>

theorem playedIdentifiers_bounded_fifo:
  "length (playedIdentifiers (executions calls new_AutoPlay)) \<le> 50 \<and>
   (isConnected (node p) \<and> idOrUri prev = Some x \<and> x \<noteq> [] \<and>
    x \<notin> set (playedIdentifiers (executions calls new_AutoPlay)) \<and>
    length (playedIdentifiers (executions calls new_AutoPlay)) < 50 \<longrightarrow>
      playedIdentifiers (fst (snd (execute env (Some prev) (executions calls new_AutoPlay) p))) =
        playedIdentifiers (executions calls new_AutoPlay) @ [x]) \<and>
   (isConnected (node p) \<and> idOrUri prev = Some x \<and> x \<noteq> [] \<and>
    x \<notin> set (playedIdentifiers (executions calls new_AutoPlay)) \<and>
    length (playedIdentifiers (executions calls new_AutoPlay)) = 50 \<longrightarrow>
      playedIdentifiers (fst (snd (execute env (Some prev) (executions calls new_AutoPlay) p))) =
        tl (playedIdentifiers (executions calls new_AutoPlay)) @ [x])"
proof (intro conjI impI)
  show "length (playedIdentifiers (executions calls new_AutoPlay)) \<le> 50"
    using executions_new_inv by blast
next
  assume a: "isConnected (node p) \<and> idOrUri prev = Some x \<and> x \<noteq> [] \<and>
    x \<notin> set (playedIdentifiers (executions calls new_AutoPlay)) \<and>
    length (playedIdentifiers (executions calls new_AutoPlay)) < 50"
  then show "playedIdentifiers (fst (snd (execute env (Some prev) (executions calls new_AutoPlay) p))) =
        playedIdentifiers (executions calls new_AutoPlay) @ [x]"
    using executions_new_inv[of calls]
    by (simp add: execute_engine truthy_def addPlayed_below)
next
  assume a: "isConnected (node p) \<and> idOrUri prev = Some x \<and> x \<noteq> [] \<and>
    x \<notin> set (playedIdentifiers (executions calls new_AutoPlay)) \<and>
    length (playedIdentifiers (executions calls new_AutoPlay)) = 50"
  let ?ap = "executions calls new_AutoPlay"
  have ne: "playedIdentifiers ?ap \<noteq> []" using a by auto
  have "playedIdentifiers (addPlayed x ?ap) = tl (playedIdentifiers ?ap @ [x])"
    using addPlayed_full[of x ?ap] a executions_new_inv[of calls] by simp
  then show "playedIdentifiers (fst (snd (execute env (Some prev) ?ap p))) =
        tl (playedIdentifiers ?ap) @ [x]"
    using a ne by (simp add: execute_engine truthy_def)
qed

lemma ex_calls_50:
  "playedIdentifiers (executions (ex_calls 50) new_AutoPlay) = map ex_id [0..<50]"
  by code_simp


lemma ex_calls_2:
  "playedIdentifiers (executions (ex_calls 2) new_AutoPlay) = map ex_id [0..<2]"
  by code_simp

lemma ex_player_connected: "isConnected (node (ex_player c q m))"
  by (simp add: ex_player_def ex_node_connected)

lemma ex_id_nonempty: "ex_id i \<noteq> []"
  by (simp add: ex_id_def)

lemma idOrUri_ex_track: "idOrUri (ex_track (ex_id i) s) = Some (ex_id i)"
  by (simp add: idOrUri_def ex_track_def ex_id_nonempty)

lemma ex_id_fresh: "ex_id n \<notin> set (map ex_id [0..<n])"
proof
  assume "ex_id n \<in> set (map ex_id [0..<n])"
  then obtain i where "i < n" "ex_id n = ex_id i" by auto
  then have "length (ex_id n) = length (ex_id i)" by simp
  with \<open>i < n\<close> show False by (simp add: ex_id_def)
qed

lemma ex_ids_shifted: "tl (map ex_id [0..<50]) @ [ex_id 50] = map ex_id [1..<51]"
  by code_simp

text \<open>
  C8 after 50 executions with 50 different identifiers: the set is full, and the 51st
  identifier evicts the first one. After two executions a third identifier is appended.
\<close>

theorem playedIdentifiers_bounded_fifo_witness:
  "length (playedIdentifiers (executions (ex_calls 50) new_AutoPlay)) = 50 \<and>
   playedIdentifiers (fst (snd (execute (ex_env LoadEmpty) (Some (ex_track (ex_id 50) ''youtube''))
      (executions (ex_calls 50) new_AutoPlay) (ex_player None [] LoopOff)))) =
     map ex_id [1..<51] \<and>
   playedIdentifiers (fst (snd (execute (ex_env LoadEmpty) (Some (ex_track (ex_id 2) ''youtube''))
      (executions (ex_calls 2) new_AutoPlay) (ex_player None [] LoopOff)))) =
     map ex_id [0..<2] @ [ex_id 2]"
  using playedIdentifiers_bounded_fifo
          [of "ex_calls 50" "ex_player None [] LoopOff" "ex_track (ex_id 50) ''youtube''"
              "ex_id 50" "ex_env LoadEmpty"]
        playedIdentifiers_bounded_fifo
          [of "ex_calls 2" "ex_player None [] LoopOff" "ex_track (ex_id 2) ''youtube''"
              "ex_id 2" "ex_env LoadEmpty"]
        ex_player_connected [of None "[]" LoopOff] ex_id_nonempty
        idOrUri_ex_track ex_id_fresh [of 50] ex_id_fresh [of 2] ex_ids_shifted
  by (simp add: ex_calls_50 ex_calls_2)

section \<open>Reconnection delays\<close>

lemma backoff_delay_attempt:
  "backoff_delay (b\<lparr>attempt := a\<rparr>) u =
     min (baseDelay b * 2 ^ a) (maxDelay b) * (1 + jitter b * u)"
  by (simp add: backoff_delay_def Let_def algebra_simps)

lemma backoff_delay_mono:
  assumes base: "0 \<le> baseDelay b" and j: "0 \<le> jitter b" "jitter b \<le> 1 / 3"
    and u: "- 1 \<le> u" "u \<le> 1" and u': "- 1 \<le> u'" "u' \<le> 1"
    and a: "a < a'" and cap: "baseDelay b * 2 ^ a' \<le> maxDelay b"
  shows "backoff_delay (b\<lparr>attempt := a\<rparr>) u \<le> backoff_delay (b\<lparr>attempt := a'\<rparr>) u'"
proof -
  let ?E = "baseDelay b * 2 ^ a" and ?E' = "baseDelay b * 2 ^ a'"
  have "(2::rat) ^ Suc a \<le> 2 ^ a'" using a by (intro power_increasing) auto
  then have "baseDelay b * 2 ^ Suc a \<le> ?E'" using base by (rule mult_left_mono)
  then have E2: "2 * ?E \<le> ?E'" by (simp add: mult.commute mult.left_commute)
  have E0: "0 \<le> ?E" using base by simp
  have EE: "?E \<le> ?E'" using E2 E0 by linarith
  have m: "min ?E (maxDelay b) = ?E" "min ?E' (maxDelay b) = ?E'"
    using cap EE by auto
  have ju: "jitter b * u \<le> jitter b" using j u by (simp add: mult_left_le)
  have ju': "- jitter b \<le> jitter b * u'"
  proof -
    have "jitter b * (- 1) \<le> jitter b * u'" using j u' by (intro mult_left_mono) auto
    then show ?thesis by simp
  qed
  have "?E * (1 + jitter b * u) \<le> ?E * (1 + jitter b)"
    using E0 ju by (intro mult_left_mono) auto
  also have "\<dots> \<le> ?E * (2 * (1 - jitter b))"
    using E0 j by (intro mult_left_mono) auto
  also have "\<dots> = (2 * ?E) * (1 - jitter b)" by simp
  also have "\<dots> \<le> ?E' * (1 - jitter b)"
    using E2 j by (intro mult_right_mono) auto
  also have "\<dots> \<le> ?E' * (1 + jitter b * u')"
    using E0 EE ju' by (intro mult_left_mono) auto
  finally show ?thesis by (simp add: backoff_delay_attempt m)
qed

lemma backoff_delay_strict:
  assumes base: "0 < baseDelay b" and j: "0 \<le> jitter b" "jitter b < 1 / 3"
    and u: "- 1 \<le> u" "u \<le> 1" and u': "- 1 \<le> u'" "u' \<le> 1"
    and a: "a < a'" and cap: "baseDelay b * 2 ^ a' \<le> maxDelay b"
  shows "backoff_delay (b\<lparr>attempt := a\<rparr>) u < backoff_delay (b\<lparr>attempt := a'\<rparr>) u'"
proof -
  let ?E = "baseDelay b * 2 ^ a" and ?E' = "baseDelay b * 2 ^ a'"
  have "(2::rat) ^ Suc a \<le> 2 ^ a'" using a by (intro power_increasing) auto
  then have "baseDelay b * 2 ^ Suc a \<le> ?E'" using base by (intro mult_left_mono) auto
  then have E2: "2 * ?E \<le> ?E'" by (simp add: mult.commute mult.left_commute)
  have E0: "0 < ?E" using base by simp
  have EE: "?E \<le> ?E'" using E2 E0 by linarith
  have m: "min ?E (maxDelay b) = ?E" "min ?E' (maxDelay b) = ?E'"
    using cap EE by auto
  have ju: "jitter b * u \<le> jitter b" using j u by (simp add: mult_left_le)
  have ju': "- jitter b \<le> jitter b * u'"
  proof -
    have "jitter b * (- 1) \<le> jitter b * u'" using j u' by (intro mult_left_mono) auto
    then show ?thesis by simp
  qed
  have "?E * (1 + jitter b * u) \<le> ?E * (1 + jitter b)"
    using E0 ju by (intro mult_left_mono) auto
  also have "\<dots> < ?E * (2 * (1 - jitter b))"
    using E0 j by (intro mult_strict_left_mono) auto
  also have "\<dots> = (2 * ?E) * (1 - jitter b)" by simp
  also have "\<dots> \<le> ?E' * (1 - jitter b)"
    using E2 j by (intro mult_right_mono) auto
  also have "\<dots> \<le> ?E' * (1 + jitter b * u')"
    using E0 EE ju' by (intro mult_left_mono) auto
  finally show ?thesis by (simp add: backoff_delay_attempt m)
qed

lemma length_delays: "length (delays b us) = length us"
  by (induction us arbitrary: b) (auto simp: backoff_next_def)

lemma delays_nth:
  "i < length us \<Longrightarrow>
   delays b us ! i = backoff_delay (b\<lparr>attempt := attempt b + i\<rparr>) (us ! i)"
proof (induction us arbitrary: b i)
  case Nil
  then show ?case by simp
next
  case (Cons u us)
  show ?case
  proof (cases i)
    case 0
    then show ?thesis by (simp add: backoff_next_def)
  next
    case (Suc k)
    with Cons.prems have "k < length us" by simp
    from Cons.IH[OF this, of "b\<lparr>attempt := attempt b + 1\<rparr>"] Suc
    show ?thesis by (simp add: backoff_next_def)
  qed
qed

lemma delay_cap_below:
  assumes "0 \<le> baseDelay b" "j < length us"
    and "baseDelay b * 2 ^ (attempt b + length us - 1) \<le> maxDelay b"
  shows "baseDelay b * 2 ^ (attempt b + j) \<le> maxDelay b"
proof -
  have "(2::rat) ^ (attempt b + j) \<le> 2 ^ (attempt b + length us - 1)"
    using assms(2) by (intro power_increasing) auto
  then have "baseDelay b * 2 ^ (attempt b + j) \<le> baseDelay b * 2 ^ (attempt b + length us - 1)"
    using assms(1) by (rule mult_left_mono)
  with assms(3) show ?thesis by linarith
qed

lemma delays_sorted:
  assumes "0 \<le> baseDelay b" "0 \<le> jitter b" "jitter b \<le> 1 / 3"
    and "\<forall>u\<in>set us. - 1 \<le> u \<and> u \<le> 1"
    and "baseDelay b * 2 ^ (attempt b + length us - 1) \<le> maxDelay b"
  shows "sorted (delays b us)"
  unfolding sorted_iff_nth_mono_less length_delays
proof (intro allI impI)
  fix i j assume ij: "i < j" "j < length us"
  then have i: "i < length us" by simp
  have "backoff_delay (b\<lparr>attempt := attempt b + i\<rparr>) (us ! i)
          \<le> backoff_delay (b\<lparr>attempt := attempt b + j\<rparr>) (us ! j)"
    using assms ij i delay_cap_below[OF assms(1) ij(2) assms(5)]
    by (intro backoff_delay_mono) auto
  then show "delays b us ! i \<le> delays b us ! j"
    using ij i by (simp add: delays_nth)
qed

lemma delays_strict:
  assumes "0 < baseDelay b" "0 \<le> jitter b" "jitter b < 1 / 3"
    and "\<forall>u\<in>set us. - 1 \<le> u \<and> u \<le> 1"
    and "baseDelay b * 2 ^ (attempt b + length us - 1) \<le> maxDelay b"
  shows "sorted_wrt (<) (delays b us)"
  unfolding sorted_wrt_iff_nth_less length_delays
proof (intro allI impI)
  fix i j assume ij: "i < j" "j < length us"
  then have i: "i < length us" by simp
  have b0: "0 \<le> baseDelay b" using assms(1) by simp
  have "backoff_delay (b\<lparr>attempt := attempt b + i\<rparr>) (us ! i)
          < backoff_delay (b\<lparr>attempt := attempt b + j\<rparr>) (us ! j)"
    using assms ij i delay_cap_below[OF b0 ij(2) assms(5)]
    by (intro backoff_delay_strict) auto
  then show "delays b us ! i < delays b us ! j"
    using ij i by (simp add: delays_nth)
qed

lemma onOpen_backoff: "backoff (onOpen now n) = (backoff n)\<lparr>attempt := 0\<rparr>"
  by (simp add: onOpen_def emit_def startHeartbeat_def backoff_reset_def)

lemma scheduleReconnect_next:
  "\<not> hasReachedMaxAttempts (backoff n) \<Longrightarrow>
   reconnectTimeout (scheduleReconnect u n) = Some (backoff_delay (backoff n) u) \<and>
   backoff (scheduleReconnect u n) = (backoff n)\<lparr>attempt := attempt (backoff n) + 1\<rparr> \<and>
   state (scheduleReconnect u n) = RECONNECTING"
  by (simp add: scheduleReconnect_def backoff_next_def emit_def)

lemma new_Node_backoff:
  "backoff (new_Node opts) =
     \<lparr> baseDelay = orDefault (opt_reconnectDelay opts) 5000, maxDelay = 60000,
       maxAttempts = orDefault (opt_maxReconnectAttempts opts) 3, jitter = 2 / 10,
       attempt = 0 \<rparr>"
  by (simp add: new_Node_def Let_def)


text \<open>
  C5, for the backoff as the spec describes it. Let the base delay of a node's backoff
  be non-negative and its jitter 0.2, as the constructor sets it, and let every random
  draw lie between \<open>-1\<close> and \<open>1\<close>. Then the delays of consecutive reconnection attempts
  are non-decreasing as long as base delay \<times> 2^attempt stays within the maximum delay,
  and increasing when the base delay is positive. \<open>scheduleReconnect\<close> sets the
  reconnect timer to the next of these delays and counts the attempt. \<open>onOpen\<close> resets
  the attempt counter to 0, so that the next delay is the base delay (or the maximum
  delay, if that is smaller) with its jitter. The constructor takes the base delay from
  \<open>reconnectDelay\<close> (5000 by default), the maximum delay 60000 and the jitter 0.2.
\<close>

theorem reconnect_delays_nondecreasing:
  "(0 \<le> baseDelay (backoff n) \<and> jitter (backoff n) = 2 / 10 \<and>
    (\<forall>u\<in>set us. - 1 \<le> u \<and> u \<le> 1) \<and>
    baseDelay (backoff n) * 2 ^ (attempt (backoff n) + length us - 1) \<le> maxDelay (backoff n)
      \<longrightarrow> sorted (delays (backoff n) us) \<and>
          (0 < baseDelay (backoff n) \<longrightarrow> sorted_wrt (<) (delays (backoff n) us))) \<and>
   (\<not> hasReachedMaxAttempts (backoff n) \<longrightarrow>
      reconnectTimeout (scheduleReconnect u n) = Some (backoff_delay (backoff n) u) \<and>
      backoff (scheduleReconnect u n) = (backoff n)\<lparr>attempt := attempt (backoff n) + 1\<rparr>) \<and>
   backoff (onOpen now n) = (backoff n)\<lparr>attempt := 0\<rparr> \<and>
   backoff_delay (backoff (onOpen now n)) u =
     min (baseDelay (backoff n)) (maxDelay (backoff n)) * (1 + jitter (backoff n) * u) \<and>
   backoff (new_Node opts) =
     \<lparr> baseDelay = orDefault (opt_reconnectDelay opts) 5000, maxDelay = 60000,
       maxAttempts = orDefault (opt_maxReconnectAttempts opts) 3, jitter = 2 / 10,
       attempt = 0 \<rparr>"
proof (intro conjI impI)
  assume a: "0 \<le> baseDelay (backoff n) \<and> jitter (backoff n) = 2 / 10 \<and>
    (\<forall>u\<in>set us. - 1 \<le> u \<and> u \<le> 1) \<and>
    baseDelay (backoff n) * 2 ^ (attempt (backoff n) + length us - 1) \<le> maxDelay (backoff n)"
  then show "sorted (delays (backoff n) us)"
    by (intro delays_sorted) auto
  show "sorted_wrt (<) (delays (backoff n) us)" if "0 < baseDelay (backoff n)"
    using a that by (intro delays_strict) auto
next
  show "backoff_delay (backoff (onOpen now n)) u =
     min (baseDelay (backoff n)) (maxDelay (backoff n)) * (1 + jitter (backoff n) * u)"
    using backoff_delay_attempt[where b = "backoff n" and a = 0 and u = u]
    by (simp add: onOpen_backoff)
qed (simp_all add: scheduleReconnect_next onOpen_backoff new_Node_backoff)

lemma ex_new_backoff:
  "backoff (new_Node (ex_options nm rg None)) =
     \<lparr> baseDelay = 5000, maxDelay = 60000, maxAttempts = 3, jitter = 2 / 10, attempt = 0 \<rparr>"
  by (simp add: new_Node_backoff ex_options_def orDefault_def)

lemma ex_delays:
  "delays (backoff (new_Node (ex_options nm rg None))) [1, - 1, 1] = [6000, 8000, 24000]"
  by (simp add: ex_new_backoff backoff_next_def backoff_delay_def)

text \<open>
  C5 at a node with the default options: the draws 1, \<open>-1\<close> and 1 give the delays 6000,
  8000 and 24000; the first reconnection is scheduled after 6000, and after the socket
  has opened the delay without jitter is 5000 again.
\<close>

theorem reconnect_delays_nondecreasing_witness:
  "delays (backoff (new_Node (ex_options ''main'' None None))) [1, - 1, 1] = [6000, 8000, 24000] \<and>
   sorted (delays (backoff (new_Node (ex_options ''main'' None None))) [1, - 1, 1]) \<and>
   sorted_wrt (<) (delays (backoff (new_Node (ex_options ''main'' None None))) [1, - 1, 1]) \<and>
   reconnectTimeout (scheduleReconnect 1 (new_Node (ex_options ''main'' None None))) = Some 6000 \<and>
   backoff_delay
     (backoff (onOpen 0 (scheduleReconnect 1 (new_Node (ex_options ''main'' None None))))) 0 = 5000"
proof -
  let ?n = "new_Node (ex_options ''main'' None None)"
  let ?m = "scheduleReconnect 1 ?n"
  have b: "backoff ?n =
      \<lparr> baseDelay = 5000, maxDelay = 60000, maxAttempts = 3, jitter = 2 / 10, attempt = 0 \<rparr>"
    by (rule ex_new_backoff)
  have hyp: "0 \<le> baseDelay (backoff ?n) \<and> jitter (backoff ?n) = 2 / 10 \<and>
      (\<forall>u\<in>set [1 :: rat, - 1, 1]. - 1 \<le> u \<and> u \<le> 1) \<and>
      baseDelay (backoff ?n) * 2 ^ (attempt (backoff ?n) + length [1 :: rat, - 1, 1] - 1)
        \<le> maxDelay (backoff ?n)"
    by (simp add: b)
  have pos: "0 < baseDelay (backoff ?n)" by (simp add: b)
  have nr: "\<not> hasReachedMaxAttempts (backoff ?n)" by (simp add: b hasReachedMaxAttempts_def)
  note T = reconnect_delays_nondecreasing [of ?n "[1, - 1, 1]" 1]
  from T hyp pos have s: "sorted (delays (backoff ?n) [1, - 1, 1])"
    "sorted_wrt (<) (delays (backoff ?n) [1, - 1, 1])" by blast+
  from T nr have r: "reconnectTimeout ?m = Some (backoff_delay (backoff ?n) 1)"
    "backoff ?m = (backoff ?n)\<lparr>attempt := attempt (backoff ?n) + 1\<rparr>" by blast+
  from reconnect_delays_nondecreasing [of ?m "[]" 0 0]
  have o: "backoff_delay (backoff (onOpen 0 ?m)) 0 =
      min (baseDelay (backoff ?m)) (maxDelay (backoff ?m)) * (1 + jitter (backoff ?m) * 0)"
    by blast
  show ?thesis using s r o ex_delays [of "''main''" None] by (simp add: b backoff_delay_def)
qed

section \<open>Autoplay: failures and the fallback\<close>

lemma availableOf_fallback:
  "availableOf ap tracks =
     (if filter (notPlayed ap) tracks = [] then tracks else filter (notPlayed ap) tracks)"
  by (simp add: availableOf_def Let_def)

lemma availableOf_nonempty: "tracks \<noteq> [] \<Longrightarrow> availableOf ap tracks \<noteq> []"
  by (simp add: availableOf_fallback)

lemma availableOf_subset: "set (availableOf ap tracks) \<subseteq> set tracks"
  by (auto simp: availableOf_fallback)

lemma availableOf_fresh:
  "t \<in> set (availableOf ap tracks) \<Longrightarrow> \<exists>c\<in>set tracks. notPlayed ap c \<Longrightarrow> notPlayed ap t"
  by (auto simp: availableOf_fallback filter_empty_conv split: if_splits)

lemma play_head_fails:
  "\<not> updatePlayerOk env \<Longrightarrow> \<exists>e. fst (play env None p) = Inl e"
  by (auto simp: play_def Let_def split: option.splits list.splits)

lemma playRandom_ok:
  "ts \<noteq> [] \<Longrightarrow> updatePlayerOk env \<Longrightarrow> fst (playRandom env ts p) = Inr True"
  by (auto simp: playRandom_def play_def addTrack_def Let_def split: list.splits)

lemma playRandom_not_ok:
  "\<not> updatePlayerOk env \<Longrightarrow> fst (playRandom env ts p) \<noteq> Inr True"
  by (auto simp: playRandom_def play_def addTrack_def Let_def split: list.splits option.splits)

lemma pickRandom_member:
  assumes "ts \<noteq> []" "0 \<le> mathRandom env" "mathRandom env < 1"
  shows "pickRandom env ts \<in> set ts"
proof -
  let ?n = "of_nat (length ts) :: rat"
  have pos: "0 < ?n" using assms by simp
  have "mathRandom env * ?n < ?n" using assms pos by simp
  then have "\<lfloor>mathRandom env * ?n\<rfloor> < int (length ts)"
    by (simp add: floor_less_iff)
  moreover have "0 \<le> \<lfloor>mathRandom env * ?n\<rfloor>" using assms by simp
  ultimately have "nat \<lfloor>mathRandom env * ?n\<rfloor> < length ts" by linarith
  then show ?thesis by (simp add: pickRandom_def)
qed

lemma playRandom_track:
  "ts \<noteq> [] \<Longrightarrow> updatePlayerOk env \<Longrightarrow> queue p = [] \<Longrightarrow>
   track (snd (playRandom env ts p)) = Some (pickRandom env ts)"
  by (simp add: playRandom_def play_def addTrack_def Let_def startPositionUpdate_def
        clearPositionUpdate_def)

lemma dispatch_rejected:
  "loadTracks env = (\<lambda>_. Inl e) \<Longrightarrow> fst (dispatch env ap prev p) \<noteq> Inr True"
  by (simp add: dispatch_def handleYouTube_def handleSoundCloud_def handleSpotify_def
        search_def Let_def)

lemma dispatch_not_ok:
  "\<not> updatePlayerOk env \<Longrightarrow> fst (dispatch env ap prev p) \<noteq> Inr True"
  by (auto simp: dispatch_def handleYouTube_def handleSoundCloud_def handleSpotify_def
        Let_def playRandom_not_ok split: sum.splits)

lemma execute_returns: "\<exists>b. fst (execute env previousTrack ap p) = Inr b"
  by (auto simp: execute_def Let_def split: option.splits prod.splits sum.splits)

lemma execute_result:
  "fst (execute env previousTrack ap p) = Inr True \<longleftrightarrow>
     (\<exists>prev. previousTrack = Some prev \<and> isConnected (node p) \<and>
        fst (dispatch env (fst (snd (execute env previousTrack ap p))) prev p) = Inr True)"
  by (auto simp: execute_def Let_def split: option.splits prod.splits sum.splits)

lemma execute_player:
  "isConnected (node p) \<Longrightarrow>
   snd (snd (execute env (Some prev) ap p)) =
     snd (dispatch env (fst (snd (execute env (Some prev) ap p))) prev p)"
  by (auto simp: execute_def Let_def split: option.splits prod.splits sum.splits)


lemma availableOf_empty_iff: "availableOf ap tracks = [] \<longleftrightarrow> tracks = []"
  by (auto simp: availableOf_fallback)

lemma playRandom_iff:
  "fst (playRandom env ts p) = Inr True \<longleftrightarrow> ts \<noteq> [] \<and> updatePlayerOk env"
  using playRandom_ok[of ts env p] playRandom_not_ok[of env ts p]
  by (cases "ts = []") (auto simp: playRandom_def)

lemma search_identifier: "search env query platform = loadTracks env (searchIdentifier query platform)"
  by (simp add: search_def searchIdentifier_def)

lemma handleYouTube_answer:
  assumes "identifier_t (info prev) \<noteq> []"
    and "sourceName (info prev) \<noteq> ''soundcloud''" "sourceName (info prev) \<noteq> ''spotify''"
  shows "handleYouTube env ap prev p =
           (case loadTracks env (strategyRequest prev) of
              Inl e \<Rightarrow> (Inl e, p)
            | Inr result \<Rightarrow>
                playRandom env (availableOf ap (answerTracks (sourceName (info prev)) result)) p)"
proof (cases "loadTracks env (strategyRequest prev)")
  case (Inl e)
  then show ?thesis
    using assms by (simp add: handleYouTube_def search_identifier strategyRequest_def Let_def)
next
  case (Inr result)
  then show ?thesis
    using assms
    by (cases result)
       (simp_all add: handleYouTube_def search_identifier strategyRequest_def Let_def
          answerTracks_def availableOf_def playRandom_def)
qed

lemma handleSoundCloud_answer:
  assumes "truthy (uri (info prev))" "sourceName (info prev) = ''soundcloud''"
  shows "handleSoundCloud env ap prev p =
           (case loadTracks env (strategyRequest prev) of
              Inl e \<Rightarrow> (Inl e, p)
            | Inr result \<Rightarrow>
                playRandom env (availableOf ap (answerTracks (sourceName (info prev)) result)) p)"
proof (cases "loadTracks env (strategyRequest prev)")
  case (Inl e)
  then show ?thesis
    using assms by (simp add: handleSoundCloud_def search_identifier strategyRequest_def Let_def)
next
  case (Inr result)
  then show ?thesis
    using assms
    by (cases result)
       (simp_all add: handleSoundCloud_def search_identifier strategyRequest_def Let_def
          answerTracks_def availableOf_def playRandom_def)
qed

lemma handleSpotify_answer:
  assumes "title (info prev) \<noteq> []" "author (info prev) \<noteq> []"
    and "sourceName (info prev) = ''spotify''"
  shows "handleSpotify env ap prev p =
           (case loadTracks env (strategyRequest prev) of
              Inl e \<Rightarrow> (Inl e, p)
            | Inr result \<Rightarrow>
                playRandom env (availableOf ap (answerTracks (sourceName (info prev)) result)) p)"
proof (cases "loadTracks env (strategyRequest prev)")
  case (Inl e)
  then show ?thesis
    using assms by (simp add: handleSpotify_def search_identifier strategyRequest_def Let_def)
next
  case (Inr result)
  then show ?thesis
    using assms
    by (cases result)
       (simp_all add: handleSpotify_def search_identifier strategyRequest_def Let_def
          answerTracks_def availableOf_def playRandom_def)
qed

lemma dispatch_applies:
  assumes "strategyApplies prev"
  shows "dispatch env ap prev p =
           (case loadTracks env (strategyRequest prev) of
              Inl e \<Rightarrow> (Inl e, p)
            | Inr result \<Rightarrow>
                playRandom env (availableOf ap (answerTracks (sourceName (info prev)) result)) p)"
proof -
  consider "sourceName (info prev) = ''soundcloud''" | "sourceName (info prev) = ''spotify''"
    | "sourceName (info prev) \<noteq> ''soundcloud''" "sourceName (info prev) \<noteq> ''spotify''"
    by blast
  then show ?thesis
  proof cases
    case 1
    with assms have "truthy (uri (info prev))" by (simp add: strategyApplies_def)
    from handleSoundCloud_answer[OF this 1] 1 show ?thesis by (simp add: dispatch_def)
  next
    case 2
    with assms have "title (info prev) \<noteq> []" "author (info prev) \<noteq> []"
      by (simp_all add: strategyApplies_def)
    from handleSpotify_answer[OF this 2] 2 show ?thesis by (simp add: dispatch_def)
  next
    case 3
    with assms have "identifier_t (info prev) \<noteq> []" by (simp add: strategyApplies_def)
    from handleYouTube_answer[OF this 3] 3 show ?thesis by (auto simp: dispatch_def Let_def)
  qed
qed

lemma dispatch_not_applies:
  "\<not> strategyApplies prev \<Longrightarrow> dispatch env ap prev p = (Inr False, p)"
  by (auto simp: strategyApplies_def dispatch_def handleYouTube_def handleSoundCloud_def
        handleSpotify_def Let_def split: if_splits)

lemma dispatch_found:
  assumes "strategyApplies prev" "foundTracks env prev \<noteq> []"
  shows "dispatch env ap prev p = playRandom env (availableOf ap (foundTracks env prev)) p"
  using assms dispatch_applies[OF assms(1), of env ap p]
  by (auto simp: foundTracks_def split: sum.splits)

lemma dispatch_success:
  "fst (dispatch env ap prev p) = Inr True \<longleftrightarrow>
     strategyApplies prev \<and> foundTracks env prev \<noteq> [] \<and> updatePlayerOk env"
proof (cases "strategyApplies prev")
  case False
  then show ?thesis by (simp add: dispatch_not_applies)
next
  case True
  show ?thesis
  proof (cases "loadTracks env (strategyRequest prev)")
    case (Inl e)
    then show ?thesis using True by (simp add: dispatch_applies foundTracks_def)
  next
    case (Inr result)
    then show ?thesis
      using True by (simp add: dispatch_applies foundTracks_def playRandom_iff availableOf_empty_iff)
  qed
qed

lemma execute_success:
  "isConnected (node p) \<Longrightarrow>
   fst (execute env (Some prev) ap p) =
     Inr (strategyApplies prev \<and> foundTracks env prev \<noteq> [] \<and> updatePlayerOk env)"
  using execute_returns[of env "Some prev" ap p] execute_result[of env "Some prev" ap p]
  by (auto simp: dispatch_success)

lemma execute_idle:
  "fst (execute env None ap p) = Inr False"
  "\<not> isConnected (node p) \<Longrightarrow> fst (execute env previousTrack ap p) = Inr False"
  by (auto simp: execute_def split: option.splits)


text \<open>
  C7. \<open>execute\<close> always answers with a boolean: nothing that a strategy throws leaves
  it. The answer is \<open>false\<close> without an ended track, on a node that is not connected,
  when the search is rejected and when the play request fails. On a connected node the
  answer is \<open>true\<close> exactly when the ended track has what its strategy needs, the answer
  to the search holds at least one candidate (an error and an empty result hold none),
  and the backend plays: whether the candidates were played before has no part in it.
  The strategy chooses from the candidates that were not played yet and, when there is
  none of these, from all candidates, whatever the kind of answer (search result, single
  track or playlist). On an empty queue the track that is played is one of the
  candidates, and one not played yet if there is any.
\<close>

theorem execute_reports_failure_and_falls_back:
  "(\<exists>b. fst (execute env previousTrack ap p) = Inr b) \<and>
   fst (execute env None ap p) = Inr False \<and>
   (\<not> isConnected (node p) \<longrightarrow> fst (execute env previousTrack ap p) = Inr False) \<and>
   (loadTracks env = (\<lambda>_. Inl e) \<or> \<not> updatePlayerOk env \<longrightarrow>
      fst (execute env previousTrack ap p) = Inr False) \<and>
   (isConnected (node p) \<longrightarrow>
      fst (execute env (Some prev) ap p) =
        Inr (strategyApplies prev \<and> foundTracks env prev \<noteq> [] \<and> updatePlayerOk env)) \<and>
   (strategyApplies prev \<and> loadTracks env (strategyRequest prev) = Inr result \<longrightarrow>
      dispatch env ap prev p =
        playRandom env
          (if filter (notPlayed ap) (answerTracks (sourceName (info prev)) result) = []
           then answerTracks (sourceName (info prev)) result
           else filter (notPlayed ap) (answerTracks (sourceName (info prev)) result)) p) \<and>
   (isConnected (node p) \<and> strategyApplies prev \<and> foundTracks env prev \<noteq> [] \<and>
    updatePlayerOk env \<and> queue p = [] \<and> 0 \<le> mathRandom env \<and> mathRandom env < 1 \<longrightarrow>
      (\<exists>t\<in>set (foundTracks env prev).
         track (snd (snd (execute env (Some prev) ap p))) = Some t \<and>
         ((\<exists>c\<in>set (foundTracks env prev).
              notPlayed (fst (snd (execute env (Some prev) ap p))) c) \<longrightarrow>
            notPlayed (fst (snd (execute env (Some prev) ap p))) t)))"
proof (intro conjI impI)
  show "\<exists>b. fst (execute env previousTrack ap p) = Inr b"
    by (rule execute_returns)
next
  assume "loadTracks env = (\<lambda>_. Inl e) \<or> \<not> updatePlayerOk env"
  then have "fst (execute env previousTrack ap p) \<noteq> Inr True"
    using dispatch_rejected dispatch_not_ok by (auto simp: execute_result)
  then show "fst (execute env previousTrack ap p) = Inr False"
    using execute_returns[of env previousTrack ap p] by auto
next
  assume "strategyApplies prev \<and> loadTracks env (strategyRequest prev) = Inr result"
  then show "dispatch env ap prev p =
        playRandom env
          (if filter (notPlayed ap) (answerTracks (sourceName (info prev)) result) = []
           then answerTracks (sourceName (info prev)) result
           else filter (notPlayed ap) (answerTracks (sourceName (info prev)) result)) p"
    by (simp add: dispatch_applies availableOf_fallback)
next
  assume a: "isConnected (node p) \<and> strategyApplies prev \<and> foundTracks env prev \<noteq> [] \<and>
    updatePlayerOk env \<and> queue p = [] \<and> 0 \<le> mathRandom env \<and> mathRandom env < 1"
  let ?ap = "fst (snd (execute env (Some prev) ap p))"
  let ?ts = "foundTracks env prev"
  let ?t = "pickRandom env (availableOf ?ap ?ts)"
  have d: "dispatch env ?ap prev p = playRandom env (availableOf ?ap ?ts) p"
    using a dispatch_found by blast
  have ne: "availableOf ?ap ?ts \<noteq> []" using a availableOf_nonempty by blast
  have m: "?t \<in> set (availableOf ?ap ?ts)"
    using pickRandom_member[OF ne] a by blast
  have "track (snd (snd (execute env (Some prev) ap p))) = Some ?t"
    using a d playRandom_track[OF ne, of env p] by (simp add: execute_player)
  moreover have "?t \<in> set ?ts" using m availableOf_subset by blast
  moreover have "(\<exists>c\<in>set ?ts. notPlayed ?ap c) \<longrightarrow> notPlayed ?ap ?t"
    using m availableOf_fresh by blast
  ultimately show "\<exists>t\<in>set ?ts.
         track (snd (snd (execute env (Some prev) ap p))) = Some t \<and>
         ((\<exists>c\<in>set ?ts. notPlayed ?ap c) \<longrightarrow> notPlayed ?ap t)"
    by blast
qed (simp_all add: execute_idle execute_success)

lemma ex_A_applies: "strategyApplies ex_A"
  by (simp add: strategyApplies_def ex_A_def ex_track_def)

lemma ex_env_fields:
  "loadTracks (ex_env a) = (\<lambda>_. Inr a)" "mathRandom (ex_env a) = 1 / 2"
  by (simp_all add: ex_env_def)

lemma ex_env_failing:
  "loadTracks ex_env_rejecting = (\<lambda>_. Inl RequestFailed)" "\<not> updatePlayerOk ex_env_refusing"
  by (simp_all add: ex_env_rejecting_def ex_env_refusing_def)

lemma ex_found_playlist: "foundTracks ex_env_playlist ex_A = [ex_B, ex_C]"
  by (simp add: foundTracks_def ex_env_playlist_def ex_env_fields answerTracks_def ex_A_def
        ex_track_def)

lemma ex_found_empty:
  "foundTracks (ex_env LoadEmpty) ex_A = []" "foundTracks (ex_env LoadError) ex_A = []"
  by (simp_all add: foundTracks_def ex_env_fields answerTracks_def)

lemma ex_found_soundcloud: "foundTracks ex_env_playlist (ex_track ''A'' ''soundcloud'') = []"
  by (simp add: foundTracks_def ex_env_playlist_def ex_env_fields answerTracks_def ex_track_def)

lemma ex_played_all_played:
  "filter (notPlayed ex_played) [ex_B, ex_C] = []"
  "filter (notPlayed (fst (snd (execute ex_env_playlist (Some ex_A) ex_played
      (ex_player None [] LoopOff))))) [ex_B, ex_C] = []"
  by code_simp+

lemma ex_answer_playlist:
  "loadTracks ex_env_playlist (strategyRequest ex_A) = Inr (LoadPlaylist [ex_B, ex_C])"
  "answerTracks (sourceName (info ex_A)) (LoadPlaylist [ex_B, ex_C]) = [ex_B, ex_C]"
  by (simp_all add: ex_env_playlist_def ex_env_fields answerTracks_def ex_A_def ex_track_def)

lemma ex_player_closing:
  "\<not> isConnected (node ((ex_player None [] LoopOff)\<lparr>node := ex_closing ''main'' None 0\<rparr>))"
  by (simp add: ex_closing_not_connected)

text \<open>
  C7 after \<open>B\<close> and \<open>C\<close> were played, for the ended YouTube track \<open>A\<close>: a node whose
  socket is closing, a rejected search, a refused play request, an empty answer and an
  error answer give \<open>false\<close>, and so does a playlist answer for a SoundCloud track. For
  \<open>A\<close> a playlist of \<open>B\<close> and \<open>C\<close>, both played already, gives \<open>true\<close>: the strategy
  chooses from both, and one of the two is played.
\<close>

theorem execute_reports_failure_and_falls_back_witness:
  "fst (execute ex_env_playlist (Some ex_A) ex_played
     ((ex_player None [] LoopOff)\<lparr>node := ex_closing ''main'' None 0\<rparr>)) = Inr False \<and>
   fst (execute ex_env_rejecting (Some ex_A) ex_played (ex_player None [] LoopOff)) = Inr False \<and>
   fst (execute ex_env_refusing (Some ex_A) ex_played (ex_player None [] LoopOff)) = Inr False \<and>
   fst (execute (ex_env LoadEmpty) (Some ex_A) ex_played (ex_player None [] LoopOff)) = Inr False \<and>
   fst (execute (ex_env LoadError) (Some ex_A) ex_played (ex_player None [] LoopOff)) = Inr False \<and>
   fst (execute ex_env_playlist (Some (ex_track ''A'' ''soundcloud'')) ex_played
     (ex_player None [] LoopOff)) = Inr False \<and>
   filter (notPlayed ex_played) [ex_B, ex_C] = [] \<and>
   dispatch ex_env_playlist ex_played ex_A (ex_player None [] LoopOff) =
     playRandom ex_env_playlist [ex_B, ex_C] (ex_player None [] LoopOff) \<and>
   fst (execute ex_env_playlist (Some ex_A) ex_played (ex_player None [] LoopOff)) = Inr True \<and>
   track (snd (snd (execute ex_env_playlist (Some ex_A) ex_played (ex_player None [] LoopOff))))
     \<in> {Some ex_B, Some ex_C}"
proof -
  let ?p = "ex_player None [] LoopOff"
  let ?q = "(ex_player None [] LoopOff)\<lparr>node := ex_closing ''main'' None 0\<rparr>"
  have c: "isConnected (node ?p)" by (rule ex_player_connected)
  have q: "queue ?p = []" by (simp add: ex_player_fields)
  have ok: "updatePlayerOk ex_env_playlist" "updatePlayerOk (ex_env LoadEmpty)"
    "updatePlayerOk (ex_env LoadError)"
    by (simp_all add: ex_env_playlist_def ex_env_ok)
  have r: "0 \<le> mathRandom ex_env_playlist \<and> mathRandom ex_env_playlist < 1"
    by (simp add: ex_env_playlist_def ex_env_fields)
  note T = execute_reports_failure_and_falls_back
  from T [of ex_env_playlist "Some ex_A" ex_played ?q] ex_player_closing
  have 0: "fst (execute ex_env_playlist (Some ex_A) ex_played ?q) = Inr False" by blast
  from T [of ex_env_rejecting "Some ex_A" ex_played ?p RequestFailed] ex_env_failing(1)
  have 1: "fst (execute ex_env_rejecting (Some ex_A) ex_played ?p) = Inr False" by blast
  from T [of ex_env_refusing "Some ex_A" ex_played ?p] ex_env_failing(2)
  have 2: "fst (execute ex_env_refusing (Some ex_A) ex_played ?p) = Inr False" by blast
  from T [of "ex_env LoadEmpty" "Some ex_A" ex_played ?p _ ex_A] c
  have 3: "fst (execute (ex_env LoadEmpty) (Some ex_A) ex_played ?p) = Inr False"
    by (simp add: ex_found_empty)
  from T [of "ex_env LoadError" "Some ex_A" ex_played ?p _ ex_A] c
  have 4: "fst (execute (ex_env LoadError) (Some ex_A) ex_played ?p) = Inr False"
    by (simp add: ex_found_empty)
  from T [of ex_env_playlist "Some ex_A" ex_played ?p _ "ex_track ''A'' ''soundcloud''"] c
  have 5: "fst (execute ex_env_playlist (Some (ex_track ''A'' ''soundcloud'')) ex_played ?p) =
      Inr False"
    by (simp add: ex_found_soundcloud)
  from T [of ex_env_playlist "Some ex_A" ex_played ?p _ ex_A "LoadPlaylist [ex_B, ex_C]"]
    ex_A_applies ex_answer_playlist(1)
  have "dispatch ex_env_playlist ex_played ex_A ?p =
      playRandom ex_env_playlist
        (if filter (notPlayed ex_played)
              (answerTracks (sourceName (info ex_A)) (LoadPlaylist [ex_B, ex_C])) = []
         then answerTracks (sourceName (info ex_A)) (LoadPlaylist [ex_B, ex_C])
         else filter (notPlayed ex_played)
                (answerTracks (sourceName (info ex_A)) (LoadPlaylist [ex_B, ex_C]))) ?p"
    by blast
  then have 6: "dispatch ex_env_playlist ex_played ex_A ?p =
      playRandom ex_env_playlist [ex_B, ex_C] ?p"
    by (simp only: ex_answer_playlist(2) ex_played_all_played(1) refl if_True)
  from T [of ex_env_playlist "Some ex_A" ex_played ?p _ ex_A] c
  have 7: "fst (execute ex_env_playlist (Some ex_A) ex_played ?p) = Inr True"
    by (simp add: ex_found_playlist ex_A_applies ok)
  from T [of ex_env_playlist "Some ex_A" ex_played ?p _ ex_A] c q r ok(1) ex_A_applies
  have 8: "\<exists>t\<in>set (foundTracks ex_env_playlist ex_A).
      track (snd (snd (execute ex_env_playlist (Some ex_A) ex_played ?p))) = Some t"
    unfolding ex_found_playlist by blast
  from 8 have 9: "track (snd (snd (execute ex_env_playlist (Some ex_A) ex_played ?p)))
      \<in> {Some ex_B, Some ex_C}"
    by (auto simp: ex_found_playlist)
  from 0 1 2 3 4 5 6 7 9 ex_played_all_played(1) show ?thesis
    by (intro conjI)
qed

section \<open>The heartbeat\<close>

lemma heartbeat_tick_timeout:
  assumes "isConnected n" "heartbeatInterval n \<noteq> None" "60000 < now - lastHeartbeat n"
  shows "ws (heartbeat_tick now n) = Some \<lparr>readyState = WS_CLOSING, closeCode = Some 4000\<rparr>"
    and "state (heartbeat_tick now n) = CONNECTED"
    and "backoff (heartbeat_tick now n) = backoff n"
    and "options (heartbeat_tick now n) = options n"
  using assms
  by (auto simp: heartbeat_tick_def isConnected_def ws_close_def emit_def Let_def
           split: option.splits)

lemma heartbeat_tick_alive:
  "now - lastHeartbeat n \<le> 60000 \<Longrightarrow> heartbeat_tick now n = n"
  by (simp add: heartbeat_tick_def Let_def split: option.splits)

lemma heartbeat_tick_keeps:
  "state (heartbeat_tick now n) = state n"
  "backoff (heartbeat_tick now n) = backoff n"
  "options (heartbeat_tick now n) = options n"
  "heartbeatInterval (heartbeat_tick now n) = heartbeatInterval n"
  "lastHeartbeat (heartbeat_tick now n) = lastHeartbeat n"
  by (simp_all add: heartbeat_tick_def emit_def Let_def split: option.splits)

lemma onClose_reconnects:
  assumes "code \<noteq> 1000" "maxReconnectAttempts (options n) \<noteq> 0"
    and "\<not> hasReachedMaxAttempts (backoff n)"
  shows "state (onClose code reason u n) = RECONNECTING"
    and "reconnectTimeout (onClose code reason u n) = Some (backoff_delay (backoff n) u)"
    and "heartbeatInterval (onClose code reason u n) = None"
  using assms
  by (simp_all add: onClose_def Let_def scheduleReconnect_def backoff_next_def emit_def
        clearHeartbeatInterval_def)

lemma onOpen_heartbeat:
  "heartbeatInterval (onOpen t n) = Some 15000" "lastHeartbeat (onOpen t n) = t"
  "state (onOpen t n) = CONNECTED" "options (onOpen t n) = options n" "ws (onOpen t n) = ws n"
  by (simp_all add: onOpen_def emit_def startHeartbeat_def)

lemma onOpen_not_exhausted:
  "0 < maxAttempts (backoff n) \<Longrightarrow> \<not> hasReachedMaxAttempts (backoff (onOpen t n))"
  by (simp add: onOpen_def emit_def startHeartbeat_def backoff_reset_def
        hasReachedMaxAttempts_def)

lemma handleTrackEvent_emits: "\<exists>es. handleTrackEvent ty g n = n\<lparr>emitted := es\<rparr>"
  by (cases ty) (auto simp: handleTrackEvent_def emit_def intro: exI[of _ "emitted n"])

lemma handleReadyEvent_emits:
  "\<exists>es. handleReadyEvent outcome sid resumed n = n\<lparr>sessionId := Some sid, emitted := es\<rparr>"
  by (auto simp: handleReadyEvent_def emit_def Let_def split: option.splits)

lemma liveness_refresh:
  "lastHeartbeat (handlePlayerUpdateEvent t g n) = t"
  "lastHeartbeat (handleStatsEvent ev n) = lastHeartbeat n"
  "lastHeartbeat (handleReadyEvent outcome sid resumed n) = lastHeartbeat n"
  "lastHeartbeat (handleTrackEvent ty g n) = lastHeartbeat n"
  using handleTrackEvent_emits[of ty g n] handleReadyEvent_emits[of outcome sid resumed n]
  by (auto simp: handlePlayerUpdateEvent_def handleStatsEvent_def emit_def)

lemma onMessage_lastHeartbeat:
  "lastHeartbeat (onMessage t outcome data n) =
     (if isPlayerUpdate data then t else lastHeartbeat n)"
  by (simp add: onMessage_def handleLavalinkEvent_def liveness_refresh isPlayerUpdate_def
        emit_def split: Message.splits LavalinkEvent.splits)

lemma onMessage_keeps:
  "state (onMessage t outcome data n) = state n"
  "ws (onMessage t outcome data n) = ws n"
  "backoff (onMessage t outcome data n) = backoff n"
  "options (onMessage t outcome data n) = options n"
  "heartbeatInterval (onMessage t outcome data n) = heartbeatInterval n"
proof -
  have "\<exists>st sid lh es.
      onMessage t outcome data n = n\<lparr>stats := st, sessionId := sid, lastHeartbeat := lh, emitted := es\<rparr>"
  proof (cases data)
    case (Payload event)
    show ?thesis
    proof (cases event)
      case (ReadyEvent sid resumed)
      obtain es where "handleReadyEvent outcome sid resumed n = n\<lparr>sessionId := Some sid, emitted := es\<rparr>"
        using handleReadyEvent_emits by blast
      then have "onMessage t outcome data n =
          n\<lparr>stats := stats n, sessionId := Some sid, lastHeartbeat := lastHeartbeat n, emitted := es\<rparr>"
        using Payload ReadyEvent by (simp add: onMessage_def handleLavalinkEvent_def)
      then show ?thesis by blast
    next
      case (PlayerUpdateEvent g)
      have "onMessage t outcome data n =
          n\<lparr>stats := stats n, sessionId := sessionId n, lastHeartbeat := t,
            emitted := emitted n @ [OnPlayerUpdate g]\<rparr>"
        using Payload PlayerUpdateEvent
        by (simp add: onMessage_def handleLavalinkEvent_def handlePlayerUpdateEvent_def emit_def)
      then show ?thesis by blast
    next
      case (StatsEvent ev)
      have "onMessage t outcome data n =
          n\<lparr>stats := Some ev, sessionId := sessionId n, lastHeartbeat := lastHeartbeat n,
            emitted := emitted n @ [OnStats]\<rparr>"
        using Payload StatsEvent
        by (simp add: onMessage_def handleLavalinkEvent_def handleStatsEvent_def emit_def)
      then show ?thesis by blast
    next
      case (TrackEvent ty g)
      obtain es where "handleTrackEvent ty g n = n\<lparr>emitted := es\<rparr>"
        using handleTrackEvent_emits by blast
      then have "onMessage t outcome data n =
          n\<lparr>stats := stats n, sessionId := sessionId n, lastHeartbeat := lastHeartbeat n,
            emitted := es\<rparr>"
        using Payload TrackEvent by (simp add: onMessage_def handleLavalinkEvent_def)
      then show ?thesis by blast
    next
      case OtherOp
      have "onMessage t outcome data n =
          n\<lparr>stats := stats n, sessionId := sessionId n, lastHeartbeat := lastHeartbeat n,
            emitted := emitted n\<rparr>"
        using Payload OtherOp by (simp add: onMessage_def handleLavalinkEvent_def)
      then show ?thesis by blast
    qed
  next
    case (Malformed message)
    have "onMessage t outcome data n =
        n\<lparr>stats := stats n, sessionId := sessionId n, lastHeartbeat := lastHeartbeat n,
          emitted := emitted n @ [OnError message]\<rparr>"
      using Malformed by (simp add: onMessage_def emit_def)
    then show ?thesis by blast
  qed
  then obtain st sid lh es where
    e: "onMessage t outcome data n =
          n\<lparr>stats := st, sessionId := sid, lastHeartbeat := lh, emitted := es\<rparr>"
    by blast
  show "state (onMessage t outcome data n) = state n"
    "ws (onMessage t outcome data n) = ws n"
    "backoff (onMessage t outcome data n) = backoff n"
    "options (onMessage t outcome data n) = options n"
    "heartbeatInterval (onMessage t outcome data n) = heartbeatInterval n"
    by (simp_all add: e)
qed

lemma deliver_keeps:
  "state (deliver evs n) = state n \<and> backoff (deliver evs n) = backoff n \<and>
   options (deliver evs n) = options n \<and>
   heartbeatInterval (deliver evs n) = heartbeatInterval n"
  by (induction evs n rule: deliver.induct) (simp_all add: onMessage_keeps heartbeat_tick_keeps)

lemma deliver_lastHeartbeat:
  "lastHeartbeat (deliver evs n) = lastPlayerUpdate (lastHeartbeat n) evs"
  by (induction evs n rule: deliver.induct)
     (simp_all add: onMessage_lastHeartbeat heartbeat_tick_keeps)

lemma heartbeat_tick_socket:
  assumes "ws n = Some s"
    and "readyState s = WS_OPEN \<or> s = \<lparr>readyState = WS_CLOSING, closeCode = Some 4000\<rparr>"
  shows "\<exists>s'. ws (heartbeat_tick now n) = Some s' \<and>
           (readyState s' = WS_OPEN \<or> s' = \<lparr>readyState = WS_CLOSING, closeCode = Some 4000\<rparr>)"
  using assms
  by (auto simp: heartbeat_tick_def ws_close_def emit_def Let_def split: option.splits)

lemma deliver_socket:
  assumes "ws n = Some s"
    and "readyState s = WS_OPEN \<or> s = \<lparr>readyState = WS_CLOSING, closeCode = Some 4000\<rparr>"
  shows "\<exists>s'. ws (deliver evs n) = Some s' \<and>
           (readyState s' = WS_OPEN \<or> s' = \<lparr>readyState = WS_CLOSING, closeCode = Some 4000\<rparr>)"
  using assms
proof (induction evs n arbitrary: s rule: deliver.induct)
  case (1 n)
  then show ?case by simp
next
  case (2 t outcome data rest n)
  from 2 show ?case by (simp add: onMessage_keeps)
next
  case (3 t rest n)
  from heartbeat_tick_socket[OF 3(2,3), of t] obtain s' where
    "ws (heartbeat_tick t n) = Some s'"
    "readyState s' = WS_OPEN \<or> s' = \<lparr>readyState = WS_CLOSING, closeCode = Some 4000\<rparr>"
    by blast
  from 3(1)[OF this] show ?case by simp
qed

lemma heartbeat_tick_closes:
  assumes "ws n = Some s"
    and "readyState s = WS_OPEN \<or> s = \<lparr>readyState = WS_CLOSING, closeCode = Some 4000\<rparr>"
    and "heartbeatInterval n \<noteq> None" "60000 < now - lastHeartbeat n"
  shows "ws (heartbeat_tick now n) = Some \<lparr>readyState = WS_CLOSING, closeCode = Some 4000\<rparr>"
  using assms
  by (auto simp: heartbeat_tick_def ws_close_def emit_def Let_def split: option.splits)

lemma silence_closes:
  assumes c: "isConnected (onOpen t0 n)" and q: "60000 < now - lastPlayerUpdate t0 evs"
  shows "ws (heartbeat_tick now (deliver evs (onOpen t0 n))) =
           Some \<lparr>readyState = WS_CLOSING, closeCode = Some 4000\<rparr>"
proof -
  from c obtain s where s: "ws (onOpen t0 n) = Some s" "readyState s = WS_OPEN"
    by (auto simp: isConnected_def split: option.splits)
  then obtain s' where s': "ws (deliver evs (onOpen t0 n)) = Some s'"
    "readyState s' = WS_OPEN \<or> s' = \<lparr>readyState = WS_CLOSING, closeCode = Some 4000\<rparr>"
    using deliver_socket[of "onOpen t0 n" s evs] by blast
  have h: "heartbeatInterval (deliver evs (onOpen t0 n)) \<noteq> None"
    by (simp add: deliver_keeps onOpen_heartbeat)
  have l: "60000 < now - lastHeartbeat (deliver evs (onOpen t0 n))"
    using q by (simp add: deliver_lastHeartbeat onOpen_heartbeat)
  show ?thesis by (rule heartbeat_tick_closes[OF s' h l])
qed

lemma silence_reconnects:
  assumes m: "maxReconnectAttempts (options n) \<noteq> 0" and a: "0 < maxAttempts (backoff n)"
  shows "state (onClose 4000 reason u (heartbeat_tick now (deliver evs (onOpen t0 n)))) =
           RECONNECTING"
    and "reconnectTimeout (onClose 4000 reason u (heartbeat_tick now (deliver evs (onOpen t0 n)))) =
           Some (backoff_delay ((backoff n)\<lparr>attempt := 0\<rparr>) u)"
proof -
  let ?n = "heartbeat_tick now (deliver evs (onOpen t0 n))"
  have c: "(4000::int) \<noteq> 1000" by simp
  have b: "backoff ?n = (backoff n)\<lparr>attempt := 0\<rparr>"
    by (simp add: heartbeat_tick_keeps deliver_keeps onOpen_backoff)
  have o: "maxReconnectAttempts (options ?n) \<noteq> 0"
    using m by (simp add: heartbeat_tick_keeps deliver_keeps onOpen_heartbeat)
  have h: "\<not> hasReachedMaxAttempts (backoff ?n)"
    using a by (simp add: b hasReachedMaxAttempts_def)
  show "state (onClose 4000 reason u ?n) = RECONNECTING"
    by (rule onClose_reconnects(1)[OF c o h])
  show "reconnectTimeout (onClose 4000 reason u ?n) =
           Some (backoff_delay ((backoff n)\<lparr>attempt := 0\<rparr>) u)"
    using onClose_reconnects(2)[OF c o h, of reason u] by (simp only: b)
qed

text \<open>
  C6, as the code has it. \<open>onOpen\<close> sets the last heartbeat to the time of the open and
  starts the check with a period of 15000 ms. Of the messages only a player update moves
  the last heartbeat, to its arrival time: the ready message, statistics, track events,
  payloads with another \<open>op\<close> and data that cannot be parsed leave it as it is. So after
  any sequence of messages and checks the last heartbeat is the arrival time of the last
  player update, or the time of the open when there was none, and the check still runs.
  A check within 60000 ms of the last heartbeat changes nothing. A check more than
  60000 ms after the last player update (after the open, without one) leaves the socket
  closing with the code 4000, which is not the normal code 1000. When the close event
  with this code arrives, a reconnection is scheduled after the first backoff delay,
  provided that reconnecting is not switched off (\<open>maxReconnectAttempts\<close> is not 0) and
  the attempts are not used up, as they are not after an open when the maximum of
  attempts is positive.
\<close>

theorem heartbeat_timeout_closes_and_reconnects:
  "heartbeatInterval (onOpen opened n) = Some 15000 \<and>
   lastHeartbeat (onOpen opened n) = opened \<and>
   lastHeartbeat (handlePlayerUpdateEvent t g n) = t \<and>
   lastHeartbeat (handleReadyEvent outcome sid resumed n) = lastHeartbeat n \<and>
   lastHeartbeat (handleStatsEvent ev n) = lastHeartbeat n \<and>
   lastHeartbeat (handleTrackEvent ty g n) = lastHeartbeat n \<and>
   lastHeartbeat (onMessage t outcome data n) =
     (if isPlayerUpdate data then t else lastHeartbeat n) \<and>
   lastHeartbeat (deliver evs (onOpen opened n)) = lastPlayerUpdate opened evs \<and>
   heartbeatInterval (deliver evs (onOpen opened n)) = Some 15000 \<and>
   (now - lastHeartbeat n \<le> 60000 \<longrightarrow> heartbeat_tick now n = n) \<and>
   (isConnected n \<and> heartbeatInterval n \<noteq> None \<and> 60000 < now - lastHeartbeat n \<longrightarrow>
      ws (heartbeat_tick now n) = Some \<lparr>readyState = WS_CLOSING, closeCode = Some 4000\<rparr> \<and>
      (maxReconnectAttempts (options n) \<noteq> 0 \<and> \<not> hasReachedMaxAttempts (backoff n) \<longrightarrow>
         state (onClose 4000 reason u (heartbeat_tick now n)) = RECONNECTING \<and>
         reconnectTimeout (onClose 4000 reason u (heartbeat_tick now n)) =
           Some (backoff_delay (backoff n) u))) \<and>
   (isConnected (onOpen opened n) \<and> 60000 < now - lastPlayerUpdate opened evs \<longrightarrow>
      ws (heartbeat_tick now (deliver evs (onOpen opened n))) =
        Some \<lparr>readyState = WS_CLOSING, closeCode = Some 4000\<rparr> \<and>
      (maxReconnectAttempts (options n) \<noteq> 0 \<and> 0 < maxAttempts (backoff n) \<longrightarrow>
         state (onClose 4000 reason u (heartbeat_tick now (deliver evs (onOpen opened n)))) =
           RECONNECTING \<and>
         reconnectTimeout
             (onClose 4000 reason u (heartbeat_tick now (deliver evs (onOpen opened n)))) =
           Some (backoff_delay ((backoff n)\<lparr>attempt := 0\<rparr>) u))) \<and>
   (0 < maxAttempts (backoff n) \<longrightarrow> \<not> hasReachedMaxAttempts (backoff (onOpen opened n)))"
proof (intro conjI impI)
  show "heartbeatInterval (deliver evs (onOpen opened n)) = Some 15000"
    by (simp add: deliver_keeps onOpen_heartbeat)
next
  show "lastHeartbeat (deliver evs (onOpen opened n)) = lastPlayerUpdate opened evs"
    by (simp add: deliver_lastHeartbeat onOpen_heartbeat)
next
  assume a: "isConnected n \<and> heartbeatInterval n \<noteq> None \<and> 60000 < now - lastHeartbeat n"
  then show "ws (heartbeat_tick now n) = Some \<lparr>readyState = WS_CLOSING, closeCode = Some 4000\<rparr>"
    using heartbeat_tick_timeout(1) by blast
  assume b: "maxReconnectAttempts (options n) \<noteq> 0 \<and> \<not> hasReachedMaxAttempts (backoff n)"
  have c: "(4000::int) \<noteq> 1000" by simp
  have o: "maxReconnectAttempts (options (heartbeat_tick now n)) \<noteq> 0"
    and h: "\<not> hasReachedMaxAttempts (backoff (heartbeat_tick now n))"
    using b by (simp_all add: heartbeat_tick_keeps)
  show "state (onClose 4000 reason u (heartbeat_tick now n)) = RECONNECTING"
    by (rule onClose_reconnects(1)[OF c o h])
  show "reconnectTimeout (onClose 4000 reason u (heartbeat_tick now n)) =
           Some (backoff_delay (backoff n) u)"
    using onClose_reconnects(2)[OF c o h, of reason u] by (simp add: heartbeat_tick_keeps)
next
  assume a: "isConnected (onOpen opened n) \<and> 60000 < now - lastPlayerUpdate opened evs"
  then show "ws (heartbeat_tick now (deliver evs (onOpen opened n))) =
        Some \<lparr>readyState = WS_CLOSING, closeCode = Some 4000\<rparr>"
    using silence_closes by blast
  assume b: "maxReconnectAttempts (options n) \<noteq> 0 \<and> 0 < maxAttempts (backoff n)"
  then show "state (onClose 4000 reason u (heartbeat_tick now (deliver evs (onOpen opened n)))) =
           RECONNECTING"
    using silence_reconnects(1) by blast
  from b show "reconnectTimeout
             (onClose 4000 reason u (heartbeat_tick now (deliver evs (onOpen opened n)))) =
           Some (backoff_delay ((backoff n)\<lparr>attempt := 0\<rparr>) u)"
    using silence_reconnects(2) by blast
qed (simp_all add: heartbeat_tick_alive liveness_refresh onMessage_lastHeartbeat
       onOpen_heartbeat onOpen_not_exhausted)

lemma ex_connected_facts:
  "isConnected (ex_connected nm rg k)" "heartbeatInterval (ex_connected nm rg k) = Some 15000"
  "lastHeartbeat (ex_connected nm rg k) = 0"
  "maxReconnectAttempts (options (ex_connected nm rg k)) = orDefault k 3"
  "backoff (ex_connected nm rg k) =
     \<lparr> baseDelay = 5000, maxDelay = 60000, maxAttempts = orDefault k 3, jitter = 2 / 10,
       attempt = 0 \<rparr>"
  by (simp_all add: ex_node_defs isConnected_def Let_def)

lemma ex_opening_facts:
  "isConnected (onOpen 0 (ex_opening nm rg k))"
  "maxReconnectAttempts (options (ex_opening nm rg k)) = orDefault k 3"
  "backoff (ex_opening nm rg k) =
     \<lparr> baseDelay = 5000, maxDelay = 60000, maxAttempts = orDefault k 3, jitter = 2 / 10,
       attempt = 0 \<rparr>"
  by (simp_all add: ex_opening_def ex_node_defs isConnected_def Let_def)

lemma ex_traffic_last: "lastPlayerUpdate 0 ex_traffic = 20000"
  by (simp add: ex_traffic_def isPlayerUpdate_def)

text \<open>
  C6 at a node with the default options whose socket opened at time 0. It heard a player
  update at 20 s; statistics, a track start and unreadable data arrived after that, up
  to 85 s, and the checks up to 75 s found nothing. The last heartbeat is still 20 s,
  the check at 90 s closes the socket, and the close event schedules a reconnection
  after 5000 ms (for the draw 0). At a node that heard nothing since it connected at
  time 0, the check at 75 s closes the socket and the check at 60 s does nothing.
\<close>

theorem heartbeat_timeout_closes_and_reconnects_witness:
  "lastHeartbeat (deliver ex_traffic (onOpen 0 (ex_opening ''main'' None None))) = 20000 \<and>
   ws (heartbeat_tick 90000 (deliver ex_traffic (onOpen 0 (ex_opening ''main'' None None)))) =
     Some \<lparr>readyState = WS_CLOSING, closeCode = Some 4000\<rparr> \<and>
   state (onClose 4000 ''Heartbeat timeout'' 0
            (heartbeat_tick 90000 (deliver ex_traffic (onOpen 0 (ex_opening ''main'' None None))))) =
     RECONNECTING \<and>
   reconnectTimeout (onClose 4000 ''Heartbeat timeout'' 0
            (heartbeat_tick 90000 (deliver ex_traffic (onOpen 0 (ex_opening ''main'' None None))))) =
     Some 5000 \<and>
   ws (heartbeat_tick 75000 (ex_connected ''main'' None None)) =
     Some \<lparr>readyState = WS_CLOSING, closeCode = Some 4000\<rparr> \<and>
   state (onClose 4000 ''Heartbeat timeout'' 0
            (heartbeat_tick 75000 (ex_connected ''main'' None None))) = RECONNECTING \<and>
   reconnectTimeout (onClose 4000 ''Heartbeat timeout'' 0
            (heartbeat_tick 75000 (ex_connected ''main'' None None))) = Some 5000 \<and>
   heartbeat_tick 60000 (ex_connected ''main'' None None) = ex_connected ''main'' None None"
proof -
  note T = heartbeat_timeout_closes_and_reconnects
  let ?n = "ex_opening ''main'' None None"
  let ?c = "ex_connected ''main'' None None"
  from T [where opened = 0 and n = ?n and evs = ex_traffic]
  have 1: "lastHeartbeat (deliver ex_traffic (onOpen 0 ?n)) = 20000"
    by (simp only: ex_traffic_last)
  from T [where opened = 0 and n = ?n and evs = ex_traffic and now = 90000
            and reason = "''Heartbeat timeout''" and u = 0]
    ex_opening_facts(1) [of "''main''" None None]
  have 2: "ws (heartbeat_tick 90000 (deliver ex_traffic (onOpen 0 ?n))) =
        Some \<lparr>readyState = WS_CLOSING, closeCode = Some 4000\<rparr> \<and>
      state (onClose 4000 ''Heartbeat timeout'' 0
              (heartbeat_tick 90000 (deliver ex_traffic (onOpen 0 ?n)))) = RECONNECTING \<and>
      reconnectTimeout (onClose 4000 ''Heartbeat timeout'' 0
              (heartbeat_tick 90000 (deliver ex_traffic (onOpen 0 ?n)))) = Some 5000"
    by (simp add: ex_traffic_last ex_opening_facts(2,3) orDefault_def backoff_delay_def)
  from T [where n = ?c and now = 75000 and reason = "''Heartbeat timeout''" and u = 0]
  have 3: "ws (heartbeat_tick 75000 ?c) =
        Some \<lparr>readyState = WS_CLOSING, closeCode = Some 4000\<rparr> \<and>
      state (onClose 4000 ''Heartbeat timeout'' 0 (heartbeat_tick 75000 ?c)) = RECONNECTING \<and>
      reconnectTimeout (onClose 4000 ''Heartbeat timeout'' 0 (heartbeat_tick 75000 ?c)) =
        Some 5000"
    by (simp add: ex_connected_facts orDefault_def hasReachedMaxAttempts_def backoff_delay_def)
  from T [where n = ?c and now = 60000]
  have 4: "heartbeat_tick 60000 ?c = ?c"
    by (simp add: ex_connected_facts)
  from 1 2 3 4 show ?thesis by (intro conjI) simp_all
qed

text \<open>
  C6 as it is stated fails for a node that was created with \<open>maxReconnectAttempts = 0\<close>:
  the check at 75000 closes its socket with the code 4000, and the close event leaves
  the node \<open>DISCONNECTED\<close> with no reconnection scheduled.
\<close>

theorem heartbeat_reconnect_disabled_counterexample:
  "isConnected (ex_connected ''main'' None (Some 0)) \<and>
   heartbeatInterval (ex_connected ''main'' None (Some 0)) = Some 15000 \<and>
   lastHeartbeat (ex_connected ''main'' None (Some 0)) = 0 \<and>
   ws (heartbeat_tick 75000 (ex_connected ''main'' None (Some 0))) =
     Some \<lparr>readyState = WS_CLOSING, closeCode = Some 4000\<rparr> \<and>
   state (onClose 4000 ''Heartbeat timeout'' 0
            (heartbeat_tick 75000 (ex_connected ''main'' None (Some 0)))) = DISCONNECTED \<and>
   reconnectTimeout (onClose 4000 ''Heartbeat timeout'' 0
            (heartbeat_tick 75000 (ex_connected ''main'' None (Some 0)))) = None"
  by (simp add: ex_node_defs isConnected_def Let_def onClose_def clearHeartbeatInterval_def)

end
